theory Spec2Isabelle
  imports Complex_Main
begin

section \<open>obj2glb: converting a folder of OBJ files into one GLB scene\<close>

text \<open>
  The program is a single procedure \<^verbatim>\<open>main\<close> in \<^verbatim>\<open>obj2glb.py\<close>. It checks the input
  folder, creates the output folder \<^verbatim>\<open>model\<close>, walks the input tree, loads every file
  whose name ends in \<^verbatim>\<open>.obj\<close>, rotates it, adds it to one scene under a node name
  taken from the file name, and exports the scene.

  Everything \<^verbatim>\<open>main\<close> calls lives outside the repository: the Python standard
  library (\<^verbatim>\<open>os\<close>, \<^verbatim>\<open>os.path\<close>, \<^verbatim>\<open>sys\<close>) and the geometry library \<^verbatim>\<open>trimesh\<close>. The
  string functions of \<^verbatim>\<open>os.path\<close> are written out as the POSIX versions compute them;
  the filesystem is an explicit tree that is passed through the run; the loader, the
  mesh transformation and the GLB serialiser of the geometry library are parameters
  of the model, so every theorem holds for whatever they compute.
\<close>

subsection \<open>Strings and \<^verbatim>\<open>os.path\<close> (POSIX flavour)\<close>

type_synonym path = string

text \<open>\<^verbatim>\<open>s.endswith(suffix)\<close> and \<^verbatim>\<open>s.startswith(prefix)\<close>: case-sensitive comparisons.\<close>

definition endswith :: "string \<Rightarrow> string \<Rightarrow> bool" where
  "endswith s suffix \<longleftrightarrow>
     length suffix \<le> length s \<and> drop (length s - length suffix) s = suffix"

definition startswith :: "string \<Rightarrow> string \<Rightarrow> bool" where
  "startswith s pre \<longleftrightarrow> take (length pre) s = pre"

text \<open>\<^verbatim>\<open>s.rfind(c)\<close>: the index of the last occurrence of \<open>c\<close>, or \<open>-1\<close>.\<close>

fun rfind :: "string \<Rightarrow> char \<Rightarrow> int" where
  "rfind [] c = - 1"
| "rfind (x # xs) c =
     (let r = rfind xs c in if 0 \<le> r then r + 1 else if x = c then 0 else - 1)"

text \<open>
  \<^verbatim>\<open>os.path.join(a, b)\<close> for two arguments:
  \<^verbatim>\<open>
    if b.startswith('/'):                  path = b
    elif not path or path.endswith('/'):   path += b
    else:                                  path += '/' + b
  \<close>
\<close>

definition os_path_join :: "path \<Rightarrow> path \<Rightarrow> path" where
  "os_path_join a b =
     (if startswith b ''/'' then b
      else if a = [] \<or> endswith a ''/'' then a @ b
      else a @ ''/'' @ b)"

text \<open>\<^verbatim>\<open>os.path.basename(p)\<close>: \<^verbatim>\<open>i = p.rfind('/') + 1; return p[i:]\<close>.\<close>

definition os_path_basename :: "path \<Rightarrow> string" where
  "os_path_basename p = drop (nat (rfind p CHR ''/'' + 1)) p"

text \<open>
  \<^verbatim>\<open>os.path.splitext(p)\<close>: the extension starts at the last dot of the last path
  component, unless that component has only dots before it (leading dots do not start
  an extension).
  \<^verbatim>\<open>
    sepIndex = p.rfind('/'); dotIndex = p.rfind('.')
    if dotIndex > sepIndex:
        filenameIndex = sepIndex + 1
        while filenameIndex < dotIndex:
            if p[filenameIndex] != '.': return p[:dotIndex], p[dotIndex:]
            filenameIndex += 1
    return p, ''
  \<close>
  The loop returns at the first character of \<^verbatim>\<open>p[sepIndex+1:dotIndex]\<close> that is not
  a dot, so it is written as a search in that slice.
\<close>

definition os_path_splitext :: "path \<Rightarrow> string \<times> string" where
  "os_path_splitext p =
     (let sepIndex = rfind p CHR ''/''; dotIndex = rfind p CHR ''.'' in
      if sepIndex < dotIndex \<and>
         list_ex (\<lambda>ch. ch \<noteq> CHR ''.'')
           (take (nat dotIndex - nat (sepIndex + 1)) (drop (nat (sepIndex + 1)) p))
      then (take (nat dotIndex) p, drop (nat dotIndex) p)
      else (p, []))"

text \<open>Line 43: \<^verbatim>\<open>node_name = os.path.splitext(os.path.basename(obj_path))[0]\<close>.\<close>

definition node_name_of :: "path \<Rightarrow> string" where
  "node_name_of obj_path = fst (os_path_splitext (os_path_basename obj_path))"

subsection \<open>The filesystem\<close>

text \<open>
  A file holds its bytes; a directory holds its entries in the order in which a
  listing (\<^verbatim>\<open>os.scandir\<close>) yields them. Symbolic links, special files and permissions
  are not part of the model.
\<close>

datatype fsnode = File string | Dir "(string \<times> fsnode) list"

text \<open>
  The filesystem is the tree below \<^verbatim>\<open>/\<close> together with the working directory of the
  process, kept as the list of names that leads to it from the root.
\<close>

record filesystem =
  tree :: fsnode
  cwd :: "string list"

text \<open>The node at a list of names below a node.\<close>

fun node_at :: "fsnode \<Rightarrow> string list \<Rightarrow> fsnode option" where
  "node_at n [] = Some n"
| "node_at (File c) (x # xs) = None"
| "node_at (Dir es) (x # xs) =
     (case map_of es x of None \<Rightarrow> None | Some n \<Rightarrow> node_at n xs)"

text \<open>The components of a path string: the pieces between slashes.\<close>

fun split_path :: "path \<Rightarrow> string list" where
  "split_path [] = [[]]"
| "split_path (c # cs) =
     (if c = CHR ''/'' then [] # split_path cs
      else (case split_path cs of w # ws \<Rightarrow> (c # w) # ws | [] \<Rightarrow> [[c]]))"

text \<open>
  Path resolution, one component at a time, from the directory \<open>cur\<close>: an empty
  component and \<^verbatim>\<open>.\<close> stay, \<^verbatim>\<open>..\<close> goes to the parent (the root is its own parent), a
  name must be an entry of the current directory. Every component is looked up in a
  directory, so a path that continues below a regular file does not resolve.
\<close>

fun resolve_from :: "fsnode \<Rightarrow> string list \<Rightarrow> string list \<Rightarrow> string list option" where
  "resolve_from r cur [] = Some cur"
| "resolve_from r cur (c # cs) =
     (case node_at r cur of
        Some (Dir es) \<Rightarrow>
          if c = [] \<or> c = ''.'' then resolve_from r cur cs
          else if c = ''..'' then resolve_from r (butlast cur) cs
          else (case map_of es c of
                  None \<Rightarrow> None
                | Some n \<Rightarrow> resolve_from r (cur @ [c]) cs)
      | _ \<Rightarrow> None)"

definition resolve :: "filesystem \<Rightarrow> path \<Rightarrow> string list option" where
  "resolve fs p =
     (if p = [] then None
      else resolve_from (tree fs) (if startswith p ''/'' then [] else cwd fs) (split_path p))"

definition lookup :: "filesystem \<Rightarrow> path \<Rightarrow> fsnode option" where
  "lookup fs p = (case resolve fs p of None \<Rightarrow> None | Some q \<Rightarrow> node_at (tree fs) q)"

text \<open>\<^verbatim>\<open>os.path.exists(p)\<close> and \<^verbatim>\<open>os.path.isdir(p)\<close>.\<close>

definition os_path_exists :: "filesystem \<Rightarrow> path \<Rightarrow> bool" where
  "os_path_exists fs p \<longleftrightarrow> lookup fs p \<noteq> None"

definition os_path_isdir :: "filesystem \<Rightarrow> path \<Rightarrow> bool" where
  "os_path_isdir fs p \<longleftrightarrow> (case lookup fs p of Some (Dir es) \<Rightarrow> True | _ \<Rightarrow> False)"

text \<open>Replacing the node at a list of names below a node.\<close>

fun update_at :: "fsnode \<Rightarrow> string list \<Rightarrow> fsnode \<Rightarrow> fsnode" where
  "update_at n [] new = new"
| "update_at (File c) (x # xs) new = File c"
| "update_at (Dir es) (x # xs) new =
     Dir (map (\<lambda>(k, v). if k = x then (k, update_at v xs new) else (k, v)) es)"

text \<open>
  An exception of the Python run, with the text that \<^verbatim>\<open>str(e)\<close> gives.
\<close>

type_synonym exn = string

text \<open>
  \<^verbatim>\<open>os.makedirs(name, exist_ok=True)\<close> for a single relative name, as \<^verbatim>\<open>main\<close> calls
  it (\<^verbatim>\<open>'model'\<close>): nothing happens when the directory exists, the directory is
  created (empty, listed last) when nothing has the name, and \<^verbatim>\<open>FileExistsError\<close> is
  raised when the name belongs to something that is not a directory.
\<close>

definition os_makedirs :: "filesystem \<Rightarrow> string \<Rightarrow> exn + filesystem" where
  "os_makedirs fs name =
     (case node_at (tree fs) (cwd fs) of
        Some (Dir es) \<Rightarrow>
          (case map_of es name of
             None \<Rightarrow>
               Inr (fs\<lparr>tree := update_at (tree fs) (cwd fs) (Dir (es @ [(name, Dir [])]))\<rparr>)
           | Some (Dir sub) \<Rightarrow> Inr fs
           | Some (File c) \<Rightarrow> Inl ''FileExistsError'')
      | _ \<Rightarrow> Inl ''FileNotFoundError'')"

text \<open>
  Writing a file, as \<^verbatim>\<open>open(p, 'wb')\<close> followed by \<^verbatim>\<open>write\<close> does: the directory part
  of \<open>p\<close> must resolve to a directory, the last component must be a name that is not a
  directory; the file is created (listed last) or its content is replaced.
\<close>

definition write_file :: "filesystem \<Rightarrow> path \<Rightarrow> string \<Rightarrow> exn + filesystem" where
  "write_file fs p bytes =
     (if p = [] then Inl ''FileNotFoundError''
      else
        let comps = split_path p; name = last comps in
        (case resolve_from (tree fs) (if startswith p ''/'' then [] else cwd fs) (butlast comps) of
           None \<Rightarrow> Inl ''FileNotFoundError''
         | Some d \<Rightarrow>
             (case node_at (tree fs) d of
                Some (Dir es) \<Rightarrow>
                  if name = [] \<or> name = ''.'' \<or> name = ''..'' then Inl ''IsADirectoryError''
                  else (case map_of es name of
                          Some (Dir sub) \<Rightarrow> Inl ''IsADirectoryError''
                        | Some (File c) \<Rightarrow>
                            Inr (fs\<lparr>tree := update_at (tree fs) (d @ [name]) (File bytes)\<rparr>)
                        | None \<Rightarrow>
                            Inr (fs\<lparr>tree := update_at (tree fs) d
                                   (Dir (es @ [(name, File bytes)]))\<rparr>))
              | _ \<Rightarrow> Inl ''NotADirectoryError'')))"

subsection \<open>\<^verbatim>\<open>os.walk\<close>\<close>

text \<open>
  \<^verbatim>\<open>os.walk(top)\<close> with its defaults (top-down, links not followed, errors ignored)
  yields, for the directory it is given and then for every directory below it, the triple
  \<^verbatim>\<open>(dirpath, dirnames, filenames)\<close>; the path of a subdirectory is
  \<^verbatim>\<open>os.path.join(dirpath, dirname)\<close>, and the subdirectories are visited in the order of
  \<^verbatim>\<open>dirnames\<close>, each with everything below it before the next. In the model a file name
  comes with the bytes of the file, which is what opening
  \<^verbatim>\<open>os.path.join(dirpath, filename)\<close> reads.
\<close>

type_synonym walk_triple = "path \<times> string list \<times> (string \<times> string) list"

fun dirnames :: "(string \<times> fsnode) list \<Rightarrow> string list" where
  "dirnames [] = []"
| "dirnames ((n, Dir sub) # es) = n # dirnames es"
| "dirnames ((n, File c) # es) = dirnames es"

fun filenames :: "(string \<times> fsnode) list \<Rightarrow> (string \<times> string) list" where
  "filenames [] = []"
| "filenames ((n, Dir sub) # es) = filenames es"
| "filenames ((n, File c) # es) = (n, c) # filenames es"

fun walk_dir :: "path \<Rightarrow> (string \<times> fsnode) list \<Rightarrow> walk_triple list"
  and walk_subdirs :: "path \<Rightarrow> (string \<times> fsnode) list \<Rightarrow> walk_triple list" where
  "walk_dir dirpath es = (dirpath, dirnames es, filenames es) # walk_subdirs dirpath es"
| "walk_subdirs dirpath [] = []"
| "walk_subdirs dirpath ((n, Dir sub) # es) =
     walk_dir (os_path_join dirpath n) sub @ walk_subdirs dirpath es"
| "walk_subdirs dirpath ((n, File c) # es) = walk_subdirs dirpath es"

definition os_walk :: "filesystem \<Rightarrow> path \<Rightarrow> walk_triple list" where
  "os_walk fs p = (case lookup fs p of Some (Dir es) \<Rightarrow> walk_dir p es | _ \<Rightarrow> [])"

subsection \<open>The geometry library\<close>

text \<open>
  \<^verbatim>\<open>trimesh.load(path)\<close> returns a mesh (\<^verbatim>\<open>Trimesh\<close>), or some other object (a
  \<^verbatim>\<open>Scene\<close> for a file that holds several objects, for one), or raises. What a mesh is
  (\<open>'m\<close>) and what the other objects are (\<open>'o\<close>) is left to the library.
\<close>

datatype ('m, 'o) loaded = Trimesh 'm | Other 'o

text \<open>
  Modelled from the spec: \<^verbatim>\<open>trimesh.Scene\<close> is not in the repository. The spec calls it
  a collection of named geometry entries, and a node a named entry that corresponds to
  one loaded mesh. The model keeps the two parts of the scene that \<^verbatim>\<open>main\<close> uses:
  \<^verbatim>\<open>scene.geometry\<close>, the geometry entries in insertion order (the library stores
  each under a key of its own that it keeps unique), and the nodes of the scene graph,
  each with its name and the index of the geometry entry it places. A node is
  addressed by its name, so the graph has at most one node of a name.
\<close>

record 'm scene =
  geometry :: "'m list"
  graph :: "(string \<times> nat) list"

definition empty_scene :: "'m scene" where
  "empty_scene = \<lparr>geometry = [], graph = []\<rparr>"

text \<open>Setting the node of a name: the node is replaced where it stands, or added last.\<close>

fun graph_update :: "string \<Rightarrow> nat \<Rightarrow> (string \<times> nat) list \<Rightarrow> (string \<times> nat) list" where
  "graph_update n g [] = [(n, g)]"
| "graph_update n g ((k, v) # ns) =
     (if k = n then (n, g) # ns else (k, v) # graph_update n g ns)"

text \<open>
  \<^verbatim>\<open>scene.add_geometry(mesh, node_name=node_name)\<close> for a mesh: the mesh becomes a new
  geometry entry, and the node \<open>node_name\<close> places it.
\<close>

definition add_geometry :: "'m \<Rightarrow> string \<Rightarrow> 'm scene \<Rightarrow> 'm scene" where
  "add_geometry mesh node_name s =
     \<lparr>geometry = geometry s @ [mesh],
      graph = graph_update node_name (length (geometry s)) (graph s)\<rparr>"

text \<open>
  A 4 x 4 homogeneous transformation matrix, row by row. The program's numbers are
  double-precision floating-point numbers; each finite one is a real number, and the
  entries are modelled as reals. The arithmetic that produces them is the libraries',
  not the model's.
\<close>

type_synonym vec3 = "real \<times> real \<times> real"
type_synonym row4 = "real \<times> real \<times> real \<times> real"
type_synonym matrix = "row4 \<times> row4 \<times> row4 \<times> row4"

text \<open>
  The operations of the libraries that \<^verbatim>\<open>main\<close> calls, as parameters:
  \<^item> \<open>load path bytes\<close>: \<^verbatim>\<open>trimesh.load(path)\<close> on the file \<open>path\<close> with content \<open>bytes\<close>;
  \<^item> \<open>apply_transform M mesh\<close>: \<^verbatim>\<open>mesh.apply_transform(M)\<close> on a mesh (the mutated mesh);
  \<^item> \<open>add_other M obj node_name scene\<close>: what lines 56 and 61 do with a loaded object that
    is not a mesh, which may raise like the load;
  \<^item> \<open>export_glb scene\<close>: the bytes of the GLB file for the scene, or an exception;
  \<^item> \<open>np_radians d\<close>: \<^verbatim>\<open>np.radians(d)\<close>;
  \<^item> \<open>rotation_matrix angle direction point\<close>:
    \<^verbatim>\<open>trimesh.transformations.rotation_matrix(angle, direction, point)\<close>.

  The last two compute in floating point. What they return is a parameter like the
  rest, so that nothing about the rounding is assumed.
\<close>

record ('m, 'o) trimesh =
  load :: "path \<Rightarrow> string \<Rightarrow> exn + ('m, 'o) loaded"
  apply_transform :: "matrix \<Rightarrow> 'm \<Rightarrow> 'm"
  add_other :: "matrix \<Rightarrow> 'o \<Rightarrow> string \<Rightarrow> 'm scene \<Rightarrow> exn + 'm scene"
  export_glb :: "'m scene \<Rightarrow> exn + string"
  np_radians :: "real \<Rightarrow> real"
  rotation_matrix :: "real \<Rightarrow> vec3 \<Rightarrow> vec3 \<Rightarrow> matrix"

text \<open>
  \<^verbatim>\<open>scene.export(path, file_type='glb')\<close>: serialise, then write the file. The result
  is the bytes written and the filesystem after the write.
\<close>

definition scene_export ::
  "('m, 'o) trimesh \<Rightarrow> 'm scene \<Rightarrow> path \<Rightarrow> filesystem \<Rightarrow> exn + (string \<times> filesystem)" where
  "scene_export lib s p fs =
     (case export_glb lib s of
        Inl e \<Rightarrow> Inl e
      | Inr bytes \<Rightarrow>
          (case write_file fs p bytes of Inl e \<Rightarrow> Inl e | Inr fs' \<Rightarrow> Inr (bytes, fs')))"

text \<open>
  The two numeric operations in exact arithmetic, for comparison with what the
  libraries compute. Degrees to radians:
\<close>

definition exact_radians :: "real \<Rightarrow> real" where
  "exact_radians d = d * pi / 180"

definition unit_vector :: "vec3 \<Rightarrow> vec3" where
  "unit_vector v =
     (case v of (x, y, z) \<Rightarrow>
        let n = sqrt (x * x + y * y + z * z) in (x / n, y / n, z / n))"

text \<open>
  Modelled from the spec: \<^verbatim>\<open>trimesh.transformations.rotation_matrix\<close> is not in the
  repository. The spec says it builds the matrix of the rotation by \<open>angle\<close> about the
  axis \<open>direction\<close> through \<open>point\<close>; in exact arithmetic that matrix is
  \<open>R = cos a I + (1 - cos a) d d\<^sup>T + sin a [d]\<^sub>x\<close> for the unit vector \<open>d\<close> of the axis,
  with the translation \<open>point - R point\<close>.
\<close>

definition exact_rotation_matrix :: "real \<Rightarrow> vec3 \<Rightarrow> vec3 \<Rightarrow> matrix" where
  "exact_rotation_matrix angle direction point =
     (case unit_vector direction of (dx, dy, dz) \<Rightarrow>
      case point of (px, py, pz) \<Rightarrow>
        let sina = sin angle; cosa = cos angle;
            r00 = cosa + dx * dx * (1 - cosa);
            r01 = dx * dy * (1 - cosa) - dz * sina;
            r02 = dx * dz * (1 - cosa) + dy * sina;
            r10 = dy * dx * (1 - cosa) + dz * sina;
            r11 = cosa + dy * dy * (1 - cosa);
            r12 = dy * dz * (1 - cosa) - dx * sina;
            r20 = dz * dx * (1 - cosa) - dy * sina;
            r21 = dz * dy * (1 - cosa) + dx * sina;
            r22 = cosa + dz * dz * (1 - cosa)
        in ((r00, r01, r02, px - (r00 * px + r01 * py + r02 * pz)),
            (r10, r11, r12, py - (r10 * px + r11 * py + r12 * pz)),
            (r20, r21, r22, pz - (r20 * px + r21 * py + r22 * pz)),
            (0, 0, 0, 1)))"

text \<open>The image of a point under a homogeneous matrix.\<close>

definition transform_point :: "matrix \<Rightarrow> vec3 \<Rightarrow> vec3" where
  "transform_point M v =
     (case M of ((a00, a01, a02, a03), (a10, a11, a12, a13), (a20, a21, a22, a23), r3) \<Rightarrow>
      case v of (x, y, z) \<Rightarrow>
        (a00 * x + a01 * y + a02 * z + a03,
         a10 * x + a11 * y + a12 * z + a13,
         a20 * x + a21 * y + a22 * z + a23))"

subsection \<open>\<^verbatim>\<open>main\<close>\<close>

text \<open>
  The parsed command line (lines 9 to 13): the positional \<^verbatim>\<open>input_folder\<close> and the
  option \<^verbatim>\<open>--output-name\<close> / \<^verbatim>\<open>-o\<close>, with the defaults the parser declares. Parsing
  itself is \<^verbatim>\<open>argparse\<close>'s; the run starts from its result.
\<close>

record args =
  input_folder :: path
  output_name :: string

definition default_args :: args where
  "default_args = \<lparr>input_folder = ''obj/'', output_name = ''model.glb''\<rparr>"

text \<open>
  The lines \<^verbatim>\<open>main\<close> prints, one constructor for each \<^verbatim>\<open>print\<close> of the source:
  \<^item> \<open>Input_missing d\<close>: \<^verbatim>\<open>Error: Input directory '{d}' does not exist.\<close>
  \<^item> \<open>Not_a_directory d\<close>: \<^verbatim>\<open>Error: '{d}' is not a directory.\<close>
  \<^item> \<open>Loading p n\<close>: \<^verbatim>\<open>Loading {p} as node '{n}'\<close>
  \<^item> \<open>Error_loading p e\<close>: \<^verbatim>\<open>Error loading {p}: {e}\<close>
  \<^item> \<open>No_obj_files d\<close>: \<^verbatim>\<open>No .obj files found in directory '{d}'.\<close>
  \<^item> \<open>None_loaded\<close>: \<^verbatim>\<open>No .obj files were successfully loaded.\<close>
  \<^item> \<open>Combined k d p\<close>: \<^verbatim>\<open>Successfully combined {k} mesh(es) from '{d}' into {p}\<close>
  \<^item> \<open>Error_exporting p e\<close>: \<^verbatim>\<open>Error exporting scene to {p}: {e}\<close>
\<close>

datatype message =
    Input_missing path
  | Not_a_directory path
  | Loading path string
  | Error_loading path exn
  | No_obj_files path
  | None_loaded
  | Combined nat path path
  | Error_exporting path exn

text \<open>
  How the process ends: \<^verbatim>\<open>main\<close> returns (exit status 0), \<^verbatim>\<open>sys.exit(n)\<close> is called,
  or an exception that nothing catches ends it with a traceback (exit status 1).
\<close>

datatype ending = Returned | Sys_exit int | Uncaught exn

fun exit_status :: "ending \<Rightarrow> int" where
  "exit_status Returned = 0"
| "exit_status (Sys_exit n) = n"
| "exit_status (Uncaught e) = 1"

text \<open>
  What a run leaves: how it ended, what it printed, the filesystem, and the export it
  made (the path and the bytes written), if any.
\<close>

record run =
  ending :: ending
  stdout :: "message list"
  final_fs :: filesystem
  exported :: "(path \<times> string) option"

text \<open>The variables of the loop (lines 33 to 63): the scene, the counter, the output.\<close>

record 'm walk_state =
  scene :: "'m scene"
  obj_files_found :: nat
  out :: "message list"

definition initial_state :: "'m walk_state" where
  "initial_state = \<lparr>scene = empty_scene, obj_files_found = 0, out = []\<rparr>"

text \<open>Line 28: \<^verbatim>\<open>output_dir = 'model'\<close>.\<close>

definition output_dir :: path where
  "output_dir = ''model''"

text \<open>
  Lines 51 to 55: the matrix is what the library builds from constants only
  (\<^verbatim>\<open>angle=np.radians(-90), direction=[1, 0, 0], point=[0, 0, 0]\<close>). The call stands
  after the load, in the same \<^verbatim>\<open>try\<close>; it is taken not to raise.
\<close>

definition rotation :: "('m, 'o) trimesh \<Rightarrow> matrix" where
  "rotation lib = rotation_matrix lib (np_radians lib (- 90)) (1, 0, 0) (0, 0, 0)"

text \<open>
  The exact operations go through \<open>pi\<close>, the sine and the cosine; computing a run on a
  concrete input hands the matrix to the library as it is and never looks into it.
\<close>

declare exact_radians_def [code del]

declare exact_rotation_matrix_def [code del]

text \<open>
  Lines 40 to 63: what the loop does with one \<^verbatim>\<open>.obj\<close> file, given the path that line
  41 computes and the bytes of the file. Everything from the load to the insertion
  stands in one \<^verbatim>\<open>try\<close>, whose \<^verbatim>\<open>except Exception\<close> prints the error and goes on.
  The load may raise, and so may the handling of an object that is not a mesh; for a
  mesh, the transformation and the insertion are taken not to raise.
\<close>

definition process_obj ::
  "('m, 'o) trimesh \<Rightarrow> path \<Rightarrow> string \<Rightarrow> 'm walk_state \<Rightarrow> 'm walk_state" where
  "process_obj lib obj_path bytes st =
     (let node_name = node_name_of obj_path;
          st1 = st\<lparr>obj_files_found := obj_files_found st + 1,
                   out := out st @ [Loading obj_path node_name]\<rparr>
      in (case load lib obj_path bytes of
            Inl e \<Rightarrow> st1\<lparr>out := out st1 @ [Error_loading obj_path e]\<rparr>
          | Inr (Trimesh mesh) \<Rightarrow>
              st1\<lparr>scene := add_geometry (apply_transform lib (rotation lib) mesh) node_name (scene st1)\<rparr>
          | Inr (Other obj) \<Rightarrow>
              (case add_other lib (rotation lib) obj node_name (scene st1) of
                 Inl e \<Rightarrow> st1\<lparr>out := out st1 @ [Error_loading obj_path e]\<rparr>
               | Inr s \<Rightarrow> st1\<lparr>scene := s\<rparr>)))"

text \<open>
  The body of the inner loop (lines 39 to 63) for the file \<open>file\<close> (its name and its
  bytes) of the directory \<open>dirpath\<close>.
\<close>

definition loop_body ::
  "('m, 'o) trimesh \<Rightarrow> path \<Rightarrow> string \<times> string \<Rightarrow> 'm walk_state \<Rightarrow> 'm walk_state" where
  "loop_body lib dirpath file st =
     (if endswith (fst file) ''.obj''
      then process_obj lib (os_path_join dirpath (fst file)) (snd file) st
      else st)"

text \<open>Line 38: \<^verbatim>\<open>for file in files\<close>.\<close>

fun files_loop ::
  "('m, 'o) trimesh \<Rightarrow> path \<Rightarrow> (string \<times> string) list \<Rightarrow> 'm walk_state \<Rightarrow> 'm walk_state" where
  "files_loop lib dirpath [] st = st"
| "files_loop lib dirpath (file # files) st =
     files_loop lib dirpath files (loop_body lib dirpath file st)"

text \<open>Line 37: \<^verbatim>\<open>for root, dirs, files in os.walk(obj_dir)\<close>.\<close>

fun walk_loop :: "('m, 'o) trimesh \<Rightarrow> walk_triple list \<Rightarrow> 'm walk_state \<Rightarrow> 'm walk_state" where
  "walk_loop lib [] st = st"
| "walk_loop lib ((dirpath, dirs, files) # ts) st =
     walk_loop lib ts (files_loop lib dirpath files st)"

text \<open>The state when the walk is over (line 65), in the filesystem the walk reads.\<close>

definition walked :: "('m, 'o) trimesh \<Rightarrow> filesystem \<Rightarrow> path \<Rightarrow> 'm walk_state" where
  "walked lib fs obj_dir = walk_loop lib (os_walk fs obj_dir) initial_state"

text \<open>
  \<^verbatim>\<open>main\<close>, from line 16 on. An exception of \<^verbatim>\<open>os.makedirs\<close> is caught nowhere.
  A failed export leaves the filesystem as it was.
\<close>

definition main :: "('m, 'o) trimesh \<Rightarrow> args \<Rightarrow> filesystem \<Rightarrow> run" where
  "main lib args fs =
     (let obj_dir = input_folder args in
      if \<not> os_path_exists fs obj_dir then
        \<lparr>ending = Sys_exit 1, stdout = [Input_missing obj_dir],
         final_fs = fs, exported = None\<rparr>
      else if \<not> os_path_isdir fs obj_dir then
        \<lparr>ending = Sys_exit 1, stdout = [Not_a_directory obj_dir],
         final_fs = fs, exported = None\<rparr>
      else
        (case os_makedirs fs output_dir of
           Inl e \<Rightarrow> \<lparr>ending = Uncaught e, stdout = [], final_fs = fs, exported = None\<rparr>
         | Inr fs1 \<Rightarrow>
             let output_glb = os_path_join output_dir (output_name args);
                 st = walked lib fs1 obj_dir
             in if geometry (scene st) = [] then
                  \<lparr>ending = Sys_exit 1,
                   stdout = out st @
                     [if obj_files_found st = 0 then No_obj_files obj_dir else None_loaded],
                   final_fs = fs1, exported = None\<rparr>
                else
                  (case scene_export lib (scene st) output_glb fs1 of
                     Inr (bytes, fs2) \<Rightarrow>
                       \<lparr>ending = Returned,
                        stdout = out st @
                          [Combined (length (geometry (scene st))) obj_dir output_glb],
                        final_fs = fs2, exported = Some (output_glb, bytes)\<rparr>
                   | Inl e \<Rightarrow>
                       \<lparr>ending = Sys_exit 1,
                        stdout = out st @ [Error_exporting output_glb e],
                        final_fs = fs1, exported = None\<rparr>)))"

subsection \<open>Notions the properties are stated with\<close>

text \<open>
  The files the loop body handles, in the order it meets them: for every triple of
  the walk, the files whose name ends in \<^verbatim>\<open>.obj\<close>, each with the path of line 41.
\<close>

definition selected :: "walk_triple list \<Rightarrow> (path \<times> string) list" where
  "selected ts =
     concat (map (\<lambda>(dirpath, dirs, files).
       map (\<lambda>(n, c). (os_path_join dirpath n, c))
         (filter (\<lambda>(n, c). endswith n ''.obj'') files)) ts)"

text \<open>Running lines 40 to 63 over a list of files.\<close>

definition process_all ::
  "('m, 'o) trimesh \<Rightarrow> (path \<times> string) list \<Rightarrow> 'm walk_state \<Rightarrow> 'm walk_state" where
  "process_all lib files st = fold (\<lambda>(p, c). process_obj lib p c) files st"

text \<open>
  \<open>file_below dirpath es p n c\<close>: somewhere in the tree of the directory \<open>dirpath\<close> with
  entries \<open>es\<close>, the directory with path \<open>p\<close> holds the file \<open>n\<close> with bytes \<open>c\<close>.
\<close>

inductive file_below ::
  "path \<Rightarrow> (string \<times> fsnode) list \<Rightarrow> path \<Rightarrow> string \<Rightarrow> string \<Rightarrow> bool" where
  here: "(n, File c) \<in> set es \<Longrightarrow> file_below dirpath es dirpath n c"
| deeper: "(d, Dir sub) \<in> set es \<Longrightarrow> file_below (os_path_join dirpath d) sub p n c \<Longrightarrow>
     file_below dirpath es p n c"

text \<open>The subdirectories of a listing, in its order.\<close>

fun subdirs :: "(string \<times> fsnode) list \<Rightarrow> (string \<times> (string \<times> fsnode) list) list" where
  "subdirs [] = []"
| "subdirs ((n, Dir sub) # es) = (n, sub) # subdirs es"
| "subdirs ((n, File c) # es) = subdirs es"

text \<open>
  The mesh a file puts into the scene, if its load returns a mesh; whether its load
  raises; whether it is handled without an error.
\<close>

definition mesh_of :: "('m, 'o) trimesh \<Rightarrow> path \<times> string \<Rightarrow> 'm option" where
  "mesh_of lib f =
     (case load lib (fst f) (snd f) of
        Inr (Trimesh mesh) \<Rightarrow> Some (apply_transform lib (rotation lib) mesh)
      | _ \<Rightarrow> None)"

definition loads_mesh :: "('m, 'o) trimesh \<Rightarrow> path \<times> string \<Rightarrow> bool" where
  "loads_mesh lib f \<longleftrightarrow> mesh_of lib f \<noteq> None"

definition load_raises :: "('m, 'o) trimesh \<Rightarrow> path \<times> string \<Rightarrow> bool" where
  "load_raises lib f \<longleftrightarrow> (case load lib (fst f) (snd f) of Inl e \<Rightarrow> True | Inr x \<Rightarrow> False)"

text \<open>
  A scene in which every geometry entry is placed by exactly one node and no two nodes
  have the same name: every entry has one name, and the names differ.
\<close>

definition well_named :: "'m scene \<Rightarrow> bool" where
  "well_named s \<longleftrightarrow>
     distinct (map fst (graph s)) \<and> distinct (map snd (graph s)) \<and>
     set (map snd (graph s)) = {0 ..< length (geometry s)}"

subsection \<open>Concrete inputs\<close>

text \<open>
  A library to run the model on: a mesh is a string, the loader reads the bytes
  \<^verbatim>\<open>corrupt\<close> as a parse error, \<^verbatim>\<open>empty\<close> as an object without geometry, \<^verbatim>\<open>two\<close> as an
  object of two geometries (a scene), and anything else as a mesh; the serialiser
  refuses the mesh \<^verbatim>\<open>unexportable\<close>; the numeric operations are the exact ones.
\<close>

definition demo_lib :: "(string, string list) trimesh" where
  "demo_lib =
     \<lparr>load = (\<lambda>p bytes.
         if bytes = ''corrupt'' then Inl ''parse error''
         else if bytes = ''empty'' then Inr (Other [])
         else if bytes = ''two'' then Inr (Other [''part1'', ''part2''])
         else Inr (Trimesh bytes)),
      apply_transform = (\<lambda>M mesh. ''R('' @ mesh @ '')''),
      add_other = (\<lambda>M objs n s. Inr (s\<lparr>geometry := geometry s @ objs\<rparr>)),
      export_glb = (\<lambda>s.
         if ''R(unexportable)'' \<in> set (geometry s) then Inl ''cannot serialise''
         else Inr (''glTF'' @ concat (geometry s))),
      np_radians = exact_radians,
      rotation_matrix = exact_rotation_matrix\<rparr>"

text \<open>
  Filesystems with the working directory \<^verbatim>\<open>/work\<close> and beside it \<^verbatim>\<open>/tmp\<close>; they differ in
  what \<^verbatim>\<open>/work\<close> holds.
\<close>

definition fs_with :: "(string \<times> fsnode) list \<Rightarrow> filesystem" where
  "fs_with es = \<lparr>tree = Dir [(''work'', Dir es), (''tmp'', Dir [])], cwd = [''work'']\<rparr>"

definition obj_tree :: "(string \<times> fsnode) list" where
  "obj_tree =
     [(''a.obj'', File ''A''),
      (''sub'', Dir [(''b.obj'', File ''B''), (''FILE.OBJ'', File ''C''),
                     (''notes.txt'', File ''n'')])]"

definition mixed_tree :: "(string \<times> fsnode) list" where
  "mixed_tree =
     [(''bad.obj'', File ''corrupt''), (''good.obj'', File ''G''), (''late.obj'', File ''L'')]"

definition twins_tree :: "(string \<times> fsnode) list" where
  "twins_tree =
     [(''a'', Dir [(''x.obj'', File ''first'')]), (''b'', Dir [(''x.obj'', File ''second'')])]"

text \<open>The input folder \<^verbatim>\<open>obj\<close> with two \<^verbatim>\<open>.obj\<close> files at two depths; no \<^verbatim>\<open>model\<close> yet.\<close>

definition plain_fs :: filesystem where
  "plain_fs = fs_with [(''obj'', Dir obj_tree)]"

text \<open>A corrupt file among good ones.\<close>

definition mixed_fs :: filesystem where
  "mixed_fs = fs_with [(''obj'', Dir mixed_tree), (''model'', Dir [])]"

text \<open>Two good files with the same name in two subdirectories.\<close>

definition twins_fs :: filesystem where
  "twins_fs = fs_with [(''obj'', Dir twins_tree), (''model'', Dir [])]"

text \<open>An input folder without any \<^verbatim>\<open>.obj\<close> file.\<close>

definition bare_fs :: filesystem where
  "bare_fs = fs_with [(''obj'', Dir [(''readme.txt'', File ''r'')])]"

text \<open>The name \<^verbatim>\<open>model\<close> is taken by a regular file.\<close>

definition blocked_fs :: filesystem where
  "blocked_fs = fs_with [(''obj'', Dir obj_tree), (''model'', File ''not a folder'')]"

text \<open>A mesh that loads but cannot be serialised.\<close>

definition stuck_fs :: filesystem where
  "stuck_fs = fs_with [(''obj'', Dir [(''u.obj'', File ''unexportable'')]), (''model'', Dir [])]"

text \<open>One file that loads as an object of two geometries, and one that loads as an
  object without geometry.\<close>

definition pair_fs :: filesystem where
  "pair_fs = fs_with [(''obj'', Dir [(''pair.obj'', File ''two'')]), (''model'', Dir [])]"

definition hollow_fs :: filesystem where
  "hollow_fs = fs_with [(''obj'', Dir [(''void.obj'', File ''empty'')]), (''model'', Dir [])]"

text \<open>The input path names a regular file; the input path names nothing.\<close>

definition file_fs :: filesystem where
  "file_fs = fs_with [(''obj'', File ''x'')]"

definition void_fs :: filesystem where
  "void_fs = fs_with []"

text \<open>An output name that is an absolute path.\<close>

definition outside_args :: args where
  "outside_args = \<lparr>input_folder = ''obj/'', output_name = ''/tmp/out.glb''\<rparr>"

text \<open>The output path \<^verbatim>\<open>model/model.glb\<close> is taken by a directory.\<close>

definition jammed_fs :: filesystem where
  "jammed_fs = fs_with [(''obj'', Dir obj_tree), (''model'', Dir [(''model.glb'', Dir [])])]"

text \<open>
  \<open>keeps t t'\<close>: every directory of the tree \<open>t\<close> is a directory of \<open>t'\<close>, at the same
  place, and has at least the names it has in \<open>t\<close>. Used to compare the tree before
  and after a write.
\<close>

definition keeps :: "fsnode \<Rightarrow> fsnode \<Rightarrow> bool" where
  "keeps t t' \<longleftrightarrow>
     (\<forall>r es. node_at t r = Some (Dir es) \<longrightarrow>
        (\<exists>es'. node_at t' r = Some (Dir es') \<and> (\<forall>c. map_of es c \<noteq> None \<longrightarrow> map_of es' c \<noteq> None)))"

text \<open>What the run on \<open>plain_fs\<close> with the default command line leaves.\<close>

definition done_fs :: filesystem where
  "done_fs = fs_with [(''obj'', Dir obj_tree),
     (''model'', Dir [(''model.glb'', File ''glTFR(A)R(B)'')])]"

text \<open>The only \<^verbatim>\<open>.obj\<close> file is corrupt.\<close>

definition broken_fs :: filesystem where
  "broken_fs = fs_with [(''obj'', Dir [(''bad.obj'', File ''corrupt'')]), (''model'', Dir [])]"

text \<open>
  The arithmetic of the program is IEEE 754 double precision. For the one call of
  lines 51 to 55 it gives: \<^verbatim>\<open>np.radians(-90)\<close> is the double \<^verbatim>\<open>-0x1.921fb54442d18p+0\<close>,
  the one nearest to \<open>- pi / 2\<close>; the cosine of that double is the double
  \<^verbatim>\<open>0x1.1a62633145c07p-54\<close>, printed as \<^verbatim>\<open>6.123233995736766e-17\<close>, and its sine is
  \<^verbatim>\<open>-1.0\<close>; with the axis \<^verbatim>\<open>[1, 0, 0]\<close> and the point \<^verbatim>\<open>[0, 0, 0]\<close> the matrix that
  \<^verbatim>\<open>rotation_matrix\<close> returns has that cosine in the two places of the diagonal where
  the exact quarter turn has 0, and 0, 1 and -1 elsewhere.
\<close>

definition float64_angle :: real where
  "float64_angle = - 884279719003555 / 2 ^ 49"

definition float64_cos :: real where
  "float64_cos = 4967757600021511 / 2 ^ 106"

definition float64_rotation :: matrix where
  "float64_rotation =
     ((1, 0, 0, 0), (0, float64_cos, 1, 0), (0, - 1, float64_cos, 0), (0, 0, 0, 1))"

text \<open>
  A library that computes in double precision where \<^verbatim>\<open>main\<close> calls it: the two numeric
  operations return the values above for the arguments of lines 51 to 55 (for other
  arguments, which \<^verbatim>\<open>main\<close> never passes, the exact value stands in). A mesh is the list
  of its vertices, every file loads as the mesh with the one vertex \<open>(0, 1, 0)\<close>, and
  \<open>apply_transform\<close> maps each vertex by the matrix; for this vertex every product has a
  factor 0 or 1, so that nothing is rounded.
\<close>

definition float64_lib :: "(vec3 list, unit) trimesh" where
  "float64_lib =
     \<lparr>load = (\<lambda>p bytes. Inr (Trimesh [(0, 1, 0)])),
      apply_transform = (\<lambda>M mesh. map (transform_point M) mesh),
      add_other = (\<lambda>M obj n s. Inr s),
      export_glb = (\<lambda>s. Inr ''glTF''),
      np_radians = (\<lambda>d. if d = - 90 then float64_angle else exact_radians d),
      rotation_matrix = (\<lambda>angle direction point.
         if angle = float64_angle \<and> direction = (1, 0, 0) \<and> point = (0, 0, 0)
         then float64_rotation else exact_rotation_matrix angle direction point)\<rparr>"

subsection \<open>Lemmas about the path functions\<close>

lemma rfind_absent: "c \<notin> set xs \<Longrightarrow> rfind xs c = - 1"
  by (induction xs) (auto simp: Let_def)

lemma rfind_last: "c \<notin> set ys \<Longrightarrow> rfind (xs @ c # ys) c = int (length xs)"
  by (induction xs) (auto simp: Let_def rfind_absent)

lemma basename_join:
  assumes "CHR ''/'' \<notin> set n"
  shows "os_path_basename (os_path_join d n) = n"
proof -
  have ns: "\<not> startswith n ''/''"
    using assms by (cases n) (auto simp: startswith_def)
  have suc: "\<And>k. nat (int k + 1) = Suc k" by simp
  have base: "\<And>xs. os_path_basename (xs @ CHR ''/'' # n) = n"
    using assms by (simp add: os_path_basename_def rfind_last suc)
  show ?thesis
  proof (cases "d = [] \<or> endswith d ''/''")
    case True
    then show ?thesis
    proof
      assume "d = []"
      then show ?thesis using ns assms by (simp add: os_path_join_def os_path_basename_def rfind_absent)
    next
      assume e: "endswith d ''/''"
      then have "drop (length d - 1) d = ''/''"
        by (simp add: endswith_def)
      then have "d = take (length d - 1) d @ ''/''"
        using append_take_drop_id[of "length d - 1" d] by simp
      then obtain xs where "d = xs @ ''/''" by blast
      then show ?thesis using ns e base[of xs] by (simp add: os_path_join_def)
    qed
  next
    case False
    then show ?thesis using ns base[of d] by (simp add: os_path_join_def)
  qed
qed

lemma splitext_obj:
  assumes "CHR ''/'' \<notin> set stem" and "\<exists>ch \<in> set stem. ch \<noteq> CHR ''.''"
  shows "os_path_splitext (stem @ ''.obj'') = (stem, ''.obj'')"
proof -
  have s: "rfind (stem @ ''.obj'') CHR ''/'' = - 1"
    using assms(1) by (simp add: rfind_absent)
  have d: "rfind (stem @ ''.obj'') CHR ''.'' = int (length stem)"
    using rfind_last[of "CHR ''.''" "''obj''" stem] by simp
  show ?thesis
    using assms(2) by (simp add: os_path_splitext_def s d Let_def list_ex_iff)
qed

lemma node_name_of_obj:
  assumes "CHR ''/'' \<notin> set stem" and "\<exists>ch \<in> set stem. ch \<noteq> CHR ''.''"
  shows "node_name_of (os_path_join d (stem @ ''.obj'')) = stem"
  using assms by (simp add: node_name_of_def basename_join splitext_obj)

lemma files_loop_process:
  "files_loop lib d files st =
     process_all lib (map (\<lambda>(n, c). (os_path_join d n, c)) (filter (\<lambda>(n, c). endswith n ''.obj'') files)) st"
  by (induction files arbitrary: st) (auto simp: process_all_def loop_body_def)

lemma process_all_append:
  "process_all lib (xs @ ys) st = process_all lib ys (process_all lib xs st)"
  by (simp add: process_all_def)

lemma walk_loop_process: "walk_loop lib ts st = process_all lib (selected ts) st"
  by (induction ts arbitrary: st) (auto simp: selected_def files_loop_process process_all_append, simp add: process_all_def)

subsection \<open>Lemmas about the walk\<close>

declare walk_dir.simps [simp del]

lemma selected_append: "selected (xs @ ys) = selected xs @ selected ys"
  by (simp add: selected_def)

lemma selected_Cons:
  "selected ((d, ds, files) # ts) =
     map (\<lambda>(n, c). (os_path_join d n, c)) (filter (\<lambda>(n, c). endswith n ''.obj'') files) @ selected ts"
  by (simp add: selected_def)

lemma selected_Nil: "selected [] = []"
  by (simp add: selected_def)

lemma filenames_iff: "(n, c) \<in> set (filenames es) \<longleftrightarrow> (n, File c) \<in> set es"
  by (induction es rule: filenames.induct) auto

lemma selected_walk_subdirs:
  "selected (walk_subdirs d es) =
     concat (map (\<lambda>(n, sub). selected (walk_dir (os_path_join d n) sub)) (subdirs es))"
  by (induction es rule: subdirs.induct) (simp_all add: selected_Nil selected_append)

lemma selected_walk_dir:
  "selected (walk_dir d es) =
     map (\<lambda>(n, c). (os_path_join d n, c)) (filter (\<lambda>(n, c). endswith n ''.obj'') (filenames es)) @
     concat (map (\<lambda>(n, sub). selected (walk_dir (os_path_join d n) sub)) (subdirs es))"
  by (subst walk_dir.simps) (simp add: selected_Cons selected_walk_subdirs)

lemma set_selected_walk_dir:
  "set (selected (walk_dir d es)) =
     {(os_path_join d n, c) | n c. (n, File c) \<in> set es \<and> endswith n ''.obj''} \<union>
     set (selected (walk_subdirs d es))"
proof -
  have "set (map (\<lambda>(n, c). (os_path_join d n, c)) (filter (\<lambda>(n, c). endswith n ''.obj'') (filenames es)))
      = {(os_path_join d n, c) | n c. (n, File c) \<in> set es \<and> endswith n ''.obj''}"
    by (force simp: filenames_iff)
  then show ?thesis
    by (subst walk_dir.simps) (simp add: selected_Cons)
qed

lemma set_selected_walk_subdirs:
  "set (selected (walk_subdirs d es)) =
     (\<Union>(n, sub) \<in> {(n, sub). (n, Dir sub) \<in> set es}. set (selected (walk_dir (os_path_join d n) sub)))"
  by (induction es rule: subdirs.induct) (auto simp: selected_Nil selected_append)

lemma selected_sound:
  "(q, c) \<in> set (selected (walk_dir d es)) \<Longrightarrow>
     \<exists>p n. file_below d es p n c \<and> endswith n ''.obj'' \<and> q = os_path_join p n"
  "(q, c) \<in> set (selected (walk_subdirs d es)) \<Longrightarrow>
     \<exists>dn sub p n. (dn, Dir sub) \<in> set es \<and> file_below (os_path_join d dn) sub p n c \<and>
        endswith n ''.obj'' \<and> q = os_path_join p n"
proof (induction d es and d es rule: walk_dir_walk_subdirs.induct)
  case (1 dirpath es)
  from "1.prems" consider
      (a) n where "(n, File c) \<in> set es" "endswith n ''.obj''" "q = os_path_join dirpath n"
    | (b) "(q, c) \<in> set (selected (walk_subdirs dirpath es))"
    unfolding set_selected_walk_dir by blast
  then show ?case
  proof cases
    case a
    then show ?thesis
      using file_below.here[of n c es dirpath] by blast
  next
    case b
    from "1.IH"[OF b] obtain dn sub p n where
      "(dn, Dir sub) \<in> set es" "file_below (os_path_join dirpath dn) sub p n c"
      "endswith n ''.obj''" "q = os_path_join p n"
      by blast
    then show ?thesis
      using file_below.deeper[of dn sub es dirpath p n c] by blast
  qed
next
  case (2 dirpath)
  then show ?case by (simp add: selected_Nil)
next
  case (3 dirpath n sub es)
  from "3.prems" consider
      (a) "(q, c) \<in> set (selected (walk_dir (os_path_join dirpath n) sub))"
    | (b) "(q, c) \<in> set (selected (walk_subdirs dirpath es))"
    by (auto simp: selected_append)
  then show ?case
  proof cases
    case a
    from "3.IH"(1)[OF a] show ?thesis by auto
  next
    case b
    from "3.IH"(2)[OF b] show ?thesis by auto
  qed
next
  case (4 dirpath n c' es)
  from "4.prems" have "(q, c) \<in> set (selected (walk_subdirs dirpath es))" by simp
  from "4.IH"[OF this] show ?case by auto
qed

lemma in_subdirs_selected:
  "(dn, Dir sub) \<in> set es \<Longrightarrow> x \<in> set (selected (walk_dir (os_path_join d dn) sub)) \<Longrightarrow>
     x \<in> set (selected (walk_subdirs d es))"
  unfolding set_selected_walk_subdirs by blast

lemma selected_complete:
  "file_below d es p n c \<Longrightarrow> endswith n ''.obj'' \<Longrightarrow>
     (os_path_join p n, c) \<in> set (selected (walk_dir d es))"
proof (induction rule: file_below.induct)
  case (here n c es dirpath)
  then show ?case unfolding set_selected_walk_dir by blast
next
  case (deeper d sub es dirpath p n c)
  then have "(os_path_join p n, c) \<in> set (selected (walk_dir (os_path_join dirpath d) sub))" by simp
  with deeper(1) have "(os_path_join p n, c) \<in> set (selected (walk_subdirs dirpath es))"
    by (rule in_subdirs_selected)
  then show ?case unfolding set_selected_walk_dir by blast
qed

lemma selected_iff:
  "(q, c) \<in> set (selected (walk_dir d es)) \<longleftrightarrow>
     (\<exists>p n. file_below d es p n c \<and> endswith n ''.obj'' \<and> q = os_path_join p n)"
  using selected_sound(1)[of q c d es] selected_complete[of d es _ _ c] by blast

subsection \<open>Lemmas about the loop and about \<^verbatim>\<open>main\<close>\<close>

lemma process_obj_raise:
  "load lib p c = Inl e \<Longrightarrow>
     process_obj lib p c st =
       st\<lparr>obj_files_found := obj_files_found st + 1,
          out := out st @ [Loading p (node_name_of p), Error_loading p e]\<rparr>"
  by (simp add: process_obj_def)

lemma process_obj_mesh:
  "load lib p c = Inr (Trimesh m) \<Longrightarrow>
     process_obj lib p c st =
       st\<lparr>obj_files_found := obj_files_found st + 1,
          out := out st @ [Loading p (node_name_of p)],
          scene := add_geometry (apply_transform lib (rotation lib) m) (node_name_of p) (scene st)\<rparr>"
  by (simp add: process_obj_def Let_def)

lemma process_all_Nil: "process_all lib [] st = st"
  by (simp add: process_all_def)

lemma process_all_Cons:
  "process_all lib ((p, c) # files) st = process_all lib files (process_obj lib p c st)"
  by (simp add: process_all_def)

lemma found_process_obj: "obj_files_found (process_obj lib p c st) = obj_files_found st + 1"
  by (simp add: process_obj_def Let_def split: sum.splits loaded.splits)

lemma found_process_all:
  "obj_files_found (process_all lib files st) = obj_files_found st + length files"
  by (induction files arbitrary: st) (auto simp: process_all_Nil process_all_Cons found_process_obj)

lemma out_process_obj:
  "\<exists>ms. out (process_obj lib p c st) = out st @ Loading p (node_name_of p) # ms"
  by (simp add: process_obj_def Let_def split: sum.splits loaded.splits)

lemma out_process_all_prefix:
  "\<exists>ms. out (process_all lib files st) = out st @ ms"
proof (induction files arbitrary: st)
  case Nil
  then show ?case by (simp add: process_all_Nil)
next
  case (Cons f files)
  obtain p c where f: "f = (p, c)" by (cases f)
  from out_process_obj[of lib p c st] obtain ms where
    1: "out (process_obj lib p c st) = out st @ Loading p (node_name_of p) # ms" by blast
  from Cons.IH[of "process_obj lib p c st"] obtain ms' where
    2: "out (process_all lib files (process_obj lib p c st)) = out (process_obj lib p c st) @ ms'" by blast
  show ?case by (simp add: f process_all_Cons 1 2)
qed

lemma loading_logged:
  "(p, c) \<in> set files \<Longrightarrow> Loading p (node_name_of p) \<in> set (out (process_all lib files st))"
proof (induction files arbitrary: st)
  case Nil
  then show ?case by simp
next
  case (Cons f files)
  obtain p' c' where f: "f = (p', c')" by (cases f)
  show ?case
  proof (cases "(p, c) = f")
    case True
    from out_process_obj[of lib p c st] obtain ms where
      1: "out (process_obj lib p c st) = out st @ Loading p (node_name_of p) # ms" by blast
    from out_process_all_prefix[of lib files "process_obj lib p c st"] obtain ms' where
      2: "out (process_all lib files (process_obj lib p c st)) = out (process_obj lib p c st) @ ms'" by blast
    from True f have pc: "p' = p" "c' = c" by simp_all
    show ?thesis by (simp add: f pc process_all_Cons 1 2)
  next
    case False
    with Cons.prems have "(p, c) \<in> set files" by simp
    from Cons.IH[OF this] show ?thesis by (simp add: f process_all_Cons)
  qed
qed

lemma graph_update_fresh: "n \<notin> fst ` set g \<Longrightarrow> graph_update n v g = g @ [(n, v)]"
  by (induction g) auto

lemma isdir_exists: "os_path_isdir fs p \<Longrightarrow> os_path_exists fs p"
  by (auto simp: os_path_isdir_def os_path_exists_def split: option.splits)

lemma main_missing:
  "\<not> os_path_exists fs (input_folder args) \<Longrightarrow>
     main lib args fs =
       \<lparr>ending = Sys_exit 1, stdout = [Input_missing (input_folder args)],
        final_fs = fs, exported = None\<rparr>"
  by (simp add: main_def)

lemma main_not_dir:
  "os_path_exists fs (input_folder args) \<Longrightarrow> \<not> os_path_isdir fs (input_folder args) \<Longrightarrow>
     main lib args fs =
       \<lparr>ending = Sys_exit 1, stdout = [Not_a_directory (input_folder args)],
        final_fs = fs, exported = None\<rparr>"
  by (simp add: main_def)

lemma main_makedirs_raises:
  "os_path_isdir fs (input_folder args) \<Longrightarrow> os_makedirs fs output_dir = Inl e \<Longrightarrow>
     main lib args fs = \<lparr>ending = Uncaught e, stdout = [], final_fs = fs, exported = None\<rparr>"
  by (simp add: main_def isdir_exists)

lemma main_no_geometry:
  "os_path_isdir fs (input_folder args) \<Longrightarrow> os_makedirs fs output_dir = Inr fs1 \<Longrightarrow>
   geometry (scene (walked lib fs1 (input_folder args))) = [] \<Longrightarrow>
     main lib args fs =
       \<lparr>ending = Sys_exit 1,
        stdout = out (walked lib fs1 (input_folder args)) @
          [if obj_files_found (walked lib fs1 (input_folder args)) = 0
           then No_obj_files (input_folder args) else None_loaded],
        final_fs = fs1, exported = None\<rparr>"
  by (simp add: main_def isdir_exists Let_def)

lemma main_exported:
  "os_path_isdir fs (input_folder args) \<Longrightarrow> os_makedirs fs output_dir = Inr fs1 \<Longrightarrow>
   geometry (scene (walked lib fs1 (input_folder args))) \<noteq> [] \<Longrightarrow>
   scene_export lib (scene (walked lib fs1 (input_folder args)))
     (os_path_join output_dir (output_name args)) fs1 = Inr (bytes, fs2) \<Longrightarrow>
     main lib args fs =
       \<lparr>ending = Returned,
        stdout = out (walked lib fs1 (input_folder args)) @
          [Combined (length (geometry (scene (walked lib fs1 (input_folder args)))))
             (input_folder args) (os_path_join output_dir (output_name args))],
        final_fs = fs2,
        exported = Some (os_path_join output_dir (output_name args), bytes)\<rparr>"
  by (simp add: main_def isdir_exists Let_def)

lemma main_export_raises:
  "os_path_isdir fs (input_folder args) \<Longrightarrow> os_makedirs fs output_dir = Inr fs1 \<Longrightarrow>
   geometry (scene (walked lib fs1 (input_folder args))) \<noteq> [] \<Longrightarrow>
   scene_export lib (scene (walked lib fs1 (input_folder args)))
     (os_path_join output_dir (output_name args)) fs1 = Inl e \<Longrightarrow>
     main lib args fs =
       \<lparr>ending = Sys_exit 1,
        stdout = out (walked lib fs1 (input_folder args)) @
          [Error_exporting (os_path_join output_dir (output_name args)) e],
        final_fs = fs1, exported = None\<rparr>"
  by (simp add: main_def isdir_exists Let_def)

lemma walked_process:
  "walked lib fs p = process_all lib (selected (os_walk fs p)) initial_state"
  by (simp add: walked_def walk_loop_process)

subsection \<open>The scene while the loop runs\<close>

lemma loads_mesh_iff: "loads_mesh lib (p, c) \<longleftrightarrow> (\<exists>m. load lib p c = Inr (Trimesh m))"
  by (auto simp: loads_mesh_def mesh_of_def split: sum.splits loaded.splits)

lemma load_raises_iff: "load_raises lib (p, c) \<longleftrightarrow> (\<exists>e. load lib p c = Inl e)"
  by (auto simp: load_raises_def split: sum.splits)

lemma mesh_of_mesh:
  "load lib p c = Inr (Trimesh m) \<Longrightarrow> mesh_of lib (p, c) = Some (apply_transform lib (rotation lib) m)"
  by (simp add: mesh_of_def)

lemma mesh_of_raise: "load lib p c = Inl e \<Longrightarrow> mesh_of lib (p, c) = None"
  by (simp add: mesh_of_def)

lemma scene_process_obj_raise: "load lib p c = Inl e \<Longrightarrow> scene (process_obj lib p c st) = scene st"
  by (simp add: process_obj_raise)

lemma scene_process_all:
  assumes "\<forall>f \<in> set files. loads_mesh lib f \<or> load_raises lib f"
    and "distinct (map fst (graph (scene st)) @
           map (\<lambda>f. node_name_of (fst f)) (filter (loads_mesh lib) files))"
  shows "geometry (scene (process_all lib files st)) =
           geometry (scene st) @ List.map_filter (mesh_of lib) files \<and>
         graph (scene (process_all lib files st)) =
           graph (scene st) @
           zip (map (\<lambda>f. node_name_of (fst f)) (filter (loads_mesh lib) files))
             [length (geometry (scene st)) ..<
              length (geometry (scene st)) + length (filter (loads_mesh lib) files)]"
  using assms
proof (induction files arbitrary: st)
  case Nil
  show ?case by (simp add: process_all_Nil map_filter_simps)
next
  case (Cons f files)
  obtain p c where f: "f = (p, c)" by (cases f)
  have rest: "\<forall>f \<in> set files. loads_mesh lib f \<or> load_raises lib f"
    using Cons.prems(1) by simp
  let ?st = "process_obj lib p c st"
  show ?case
  proof (cases "loads_mesh lib f")
    case True
    then obtain m where m: "load lib p c = Inr (Trimesh m)" by (auto simp: f loads_mesh_iff)
    have fresh: "node_name_of p \<notin> fst ` set (graph (scene st))"
      using Cons.prems(2) True by (auto simp: f)
    have sc: "scene ?st = \<lparr>geometry = geometry (scene st) @ [apply_transform lib (rotation lib) m],
                 graph = graph (scene st) @ [(node_name_of p, length (geometry (scene st)))]\<rparr>"
      by (simp add: process_obj_mesh[OF m] add_geometry_def graph_update_fresh[OF fresh])
    have d: "distinct (map fst (graph (scene ?st)) @
               map (\<lambda>f. node_name_of (fst f)) (filter (loads_mesh lib) files))"
      using Cons.prems(2) True by (auto simp: sc f)
    have upt: "\<And>k j. [k ..< k + Suc j] = k # [Suc k ..< Suc k + j]"
      by (simp add: upt_conv_Cons)
    from Cons.IH[OF rest d] True show ?thesis
      using upt[of "length (geometry (scene st))" "length (filter (loads_mesh lib) files)"]
      by (simp add: f process_all_Cons sc mesh_of_mesh[OF m] map_filter_simps)
  next
    case False
    with Cons.prems(1) obtain e where e: "load lib p c = Inl e"
      by (auto simp: f load_raises_iff)
    have sc: "scene ?st = scene st" by (rule scene_process_obj_raise[OF e])
    have d: "distinct (map fst (graph (scene ?st)) @
               map (\<lambda>f. node_name_of (fst f)) (filter (loads_mesh lib) files))"
      using Cons.prems(2) False by (simp add: sc)
    from Cons.IH[OF rest d] False show ?thesis
      by (simp add: f process_all_Cons sc mesh_of_raise[OF e] map_filter_simps)
  qed
qed

lemma scene_from_initial:
  assumes "\<forall>f \<in> set files. loads_mesh lib f \<or> load_raises lib f"
    and "distinct (map (\<lambda>f. node_name_of (fst f)) (filter (loads_mesh lib) files))"
  shows "geometry (scene (process_all lib files initial_state)) =
           List.map_filter (mesh_of lib) files"
    and "graph (scene (process_all lib files initial_state)) =
           zip (map (\<lambda>f. node_name_of (fst f)) (filter (loads_mesh lib) files))
             [0 ..< length (filter (loads_mesh lib) files)]"
  using scene_process_all[of files lib initial_state] assms
  by (simp_all add: initial_state_def empty_scene_def)

lemma os_walk_dir: "lookup fs p = Some (Dir es) \<Longrightarrow> os_walk fs p = walk_dir p es"
  by (simp add: os_walk_def)

lemma scene_process_obj_cong:
  "scene st = scene st' \<Longrightarrow> scene (process_obj lib p c st) = scene (process_obj lib p c st')"
  by (simp add: process_obj_def Let_def split: sum.splits loaded.splits)

lemma scene_process_all_cong:
  "scene st = scene st' \<Longrightarrow> scene (process_all lib files st) = scene (process_all lib files st')"
proof (induction files arbitrary: st st')
  case Nil
  then show ?case by (simp add: process_all_Nil)
next
  case (Cons f files)
  obtain p c where f: "f = (p, c)" by (cases f)
  from Cons.prems have "scene (process_obj lib p c st) = scene (process_obj lib p c st')"
    by (rule scene_process_obj_cong)
  from Cons.IH[OF this] show ?case by (simp add: f process_all_Cons)
qed

lemma out_kept:
  "m \<in> set (out st) \<Longrightarrow> m \<in> set (out (process_all lib files st))"
  using out_process_all_prefix[of lib files st] by auto

subsection \<open>The matrix of lines 51 to 55\<close>

lemma exact_radians_minus_90: "exact_radians (- 90) = - (pi / 2)"
  by (simp add: exact_radians_def)

lemma exact_rotation_value:
  "exact_rotation_matrix (exact_radians (- 90)) (1, 0, 0) (0, 0, 0) =
     ((1, 0, 0, 0), (0, 0, 1, 0), (0, - 1, 0, 0), (0, 0, 0, 1))"
  by (simp add: exact_rotation_matrix_def unit_vector_def exact_radians_minus_90 Let_def)

lemma rotation_float64_lib: "rotation float64_lib = float64_rotation"
  by (simp add: rotation_def float64_lib_def)

lemma scene_process_obj_mesh:
  "load lib p c = Inr (Trimesh m) \<Longrightarrow>
     scene (process_obj lib p c st) =
       add_geometry (apply_transform lib (rotation lib) m) (node_name_of p) (scene st)"
  by (simp add: process_obj_mesh)

lemma scene_process_obj_other:
  "load lib p c = Inr (Other obj) \<Longrightarrow>
     scene (process_obj lib p c st) =
       (case add_other lib (rotation lib) obj (node_name_of p) (scene st) of
          Inl e \<Rightarrow> scene st | Inr s \<Rightarrow> s)"
  by (simp add: process_obj_def Let_def split: sum.splits)

subsection \<open>How a run ends\<close>

lemma walked_nothing_selected:
  "selected (os_walk fs p) = [] \<Longrightarrow> walked lib fs p = initial_state"
  by (simp add: walked_process process_all_Nil)

lemma geometry_initial: "geometry (scene initial_state) = []"
  by (simp add: initial_state_def empty_scene_def)

lemma exit_status_main:
  "exit_status (ending (main lib args fs)) =
     (if os_path_isdir fs (input_folder args) then
        (case os_makedirs fs output_dir of
           Inl e \<Rightarrow> 1
         | Inr fs1 \<Rightarrow>
             if geometry (scene (walked lib fs1 (input_folder args))) = [] then 1
             else (case scene_export lib (scene (walked lib fs1 (input_folder args)))
                          (os_path_join output_dir (output_name args)) fs1 of
                     Inl e \<Rightarrow> 1
                   | Inr x \<Rightarrow> 0))
      else 1)"
  by (auto simp: main_def Let_def isdir_exists split: sum.splits)

lemma main_returned:
  assumes "os_path_isdir fs (input_folder args)" and "os_makedirs fs output_dir = Inr fs1"
    and "ending (main lib args fs) = Returned"
  shows "\<exists>bytes. exported (main lib args fs) =
            Some (os_path_join output_dir (output_name args), bytes) \<and>
          export_glb lib (scene (walked lib fs1 (input_folder args))) = Inr bytes"
proof -
  let ?st = "walked lib fs1 (input_folder args)"
  let ?glb = "os_path_join output_dir (output_name args)"
  from assms(3) have z: "exit_status (ending (main lib args fs)) = 0" by simp
  then have g: "geometry (scene ?st) \<noteq> []"
    using assms(1,2) by (auto simp: exit_status_main split: if_splits)
  from z obtain bytes fs2 where e: "scene_export lib (scene ?st) ?glb fs1 = Inr (bytes, fs2)"
    using assms(1,2) g by (auto simp: exit_status_main split: sum.splits)
  then have "export_glb lib (scene ?st) = Inr bytes"
    by (auto simp: scene_export_def split: sum.splits)
  with main_exported[OF assms(1,2) g e] show ?thesis by simp
qed

lemma length_map_filter: "length (List.map_filter f xs) = length (filter (\<lambda>x. f x \<noteq> None) xs)"
  by (simp add: List.map_filter_def)

lemma all_raise_no_geometry:
  assumes "\<forall>f \<in> set (selected (os_walk fs p)). load_raises lib f"
  shows "geometry (scene (walked lib fs p)) = []"
proof -
  let ?files = "selected (os_walk fs p)"
  have none: "filter (loads_mesh lib) ?files = []"
    using assms
    by (auto simp: filter_empty_conv loads_mesh_def mesh_of_def load_raises_def split: sum.splits)
  have mr: "\<forall>f \<in> set ?files. loads_mesh lib f \<or> load_raises lib f"
    using assms by blast
  have d: "distinct (map (\<lambda>f. node_name_of (fst f)) (filter (loads_mesh lib) ?files))"
    by (simp add: none)
  have "length (geometry (scene (process_all lib ?files initial_state))) =
      length (filter (loads_mesh lib) ?files)"
    using scene_from_initial(1)[OF mr d] by (simp add: length_map_filter loads_mesh_def[abs_def])
  then show ?thesis by (simp add: walked_process none)
qed

lemma filter_take_prefix: "filter P xs = filter P (take k xs) @ filter P (drop k xs)"
  by (metis append_take_drop_id filter_append)

subsection \<open>Lemmas about the filesystem\<close>

lemma map_of_update_key:
  "map_of (map (\<lambda>(k, v). if k = x then (k, g v) else (k, v)) es) y =
     (if y = x then map_option g (map_of es x) else map_of es y)"
  by (induction es) auto

lemma node_at_update_at_same:
  "node_at t p = Some n \<Longrightarrow> node_at (update_at t p new) p = Some new"
proof (induction t p new arbitrary: n rule: update_at.induct)
  case (1 n new)
  then show ?case by simp
next
  case (2 c x xs new)
  then show ?case by simp
next
  case (3 es x xs new)
  from "3.prems" obtain v where v: "map_of es x = Some v" "node_at v xs = Some n"
    by (auto split: option.splits)
  then have "(x, v) \<in> set es" by (simp add: map_of_SomeD)
  from "3.IH"[OF this refl refl v(2)] v(1) show ?case
    by (simp add: map_of_update_key)
qed

lemma node_at_append:
  "node_at t (p @ q) = (case node_at t p of None \<Rightarrow> None | Some n \<Rightarrow> node_at n q)"
proof (induction t p rule: node_at.induct)
  case (1 n)
  then show ?case by simp
next
  case (2 c x xs)
  then show ?case by simp
next
  case (3 es x xs)
  then show ?case by (simp split: option.splits)
qed

lemma lookup_plain_name:
  assumes "\<not> startswith name ''/''" and "split_path name = [name]"
    and "name \<noteq> []" and "name \<noteq> ''.''" and "name \<noteq> ''..''"
    and "node_at (tree fs) (cwd fs) = Some (Dir es)"
  shows "lookup fs name = map_of es name"
  using assms by (simp add: lookup_def resolve_def node_at_append split: option.splits)

lemma makedirs_gives_dir:
  assumes "\<not> startswith name ''/''" and "split_path name = [name]"
    and "name \<noteq> []" and "name \<noteq> ''.''" and "name \<noteq> ''..''"
    and "os_makedirs fs name = Inr fs1"
  shows "os_path_isdir fs1 name"
proof -
  from assms(6) obtain es where es: "node_at (tree fs) (cwd fs) = Some (Dir es)"
    by (auto simp: os_makedirs_def split: option.splits fsnode.splits)
  show ?thesis
  proof (cases "map_of es name")
    case None
    with assms(6) es have fs1: "fs1 = fs\<lparr>tree := update_at (tree fs) (cwd fs) (Dir (es @ [(name, Dir [])]))\<rparr>"
      by (simp add: os_makedirs_def)
    have "node_at (tree fs1) (cwd fs1) = Some (Dir (es @ [(name, Dir [])]))"
      by (simp add: fs1 node_at_update_at_same[OF es])
    from lookup_plain_name[OF assms(1-5) this] None show ?thesis
      by (simp add: os_path_isdir_def map_add_def)
  next
    case (Some n)
    with assms(6) es obtain sub where n: "n = Dir sub" and fs1: "fs1 = fs"
      by (cases n) (auto simp: os_makedirs_def)
    from lookup_plain_name[OF assms(1-5) es] Some n show ?thesis
      by (simp add: os_path_isdir_def fs1)
  qed
qed

lemma makedirs_model_gives_dir: "os_makedirs fs output_dir = Inr fs1 \<Longrightarrow> os_path_isdir fs1 output_dir"
  by (rule makedirs_gives_dir) (simp_all add: output_dir_def startswith_def)

lemma makedirs_raises_iff:
  assumes "node_at (tree fs) (cwd fs) = Some (Dir es)"
  shows "(\<exists>e. os_makedirs fs name = Inl e) \<longleftrightarrow> (\<exists>c. map_of es name = Some (File c))"
  using assms by (auto simp: os_makedirs_def split: option.splits fsnode.splits)

lemma keeps_file: "keeps (File c) t'"
proof -
  have "\<And>r es. node_at (File c) r \<noteq> Some (Dir es)"
  proof -
    fix r es show "node_at (File c) r \<noteq> Some (Dir es)" by (cases r) simp_all
  qed
  then show ?thesis by (simp add: keeps_def)
qed

lemma keeps_new_entry:
  assumes "map_of es name = None"
  shows "keeps (Dir es) (Dir (es @ [(name, x)]))"
  unfolding keeps_def
proof (intro allI impI)
  fix r es0
  assume a: "node_at (Dir es) r = Some (Dir es0)"
  show "\<exists>es'. node_at (Dir (es @ [(name, x)])) r = Some (Dir es') \<and>
          (\<forall>c. map_of es0 c \<noteq> None \<longrightarrow> map_of es' c \<noteq> None)"
  proof (cases r)
    case Nil
    with a have "es0 = es" by simp
    then show ?thesis by (simp add: Nil map_add_def split: option.splits)
  next
    case (Cons y ys)
    with a obtain w where w: "map_of es y = Some w" "node_at w ys = Some (Dir es0)"
      by (auto split: option.splits)
    then show ?thesis by (auto simp: Cons map_add_def)
  qed
qed

lemma keeps_update:
  "node_at t q = Some old \<Longrightarrow> keeps old new \<Longrightarrow> keeps t (update_at t q new)"
proof (induction t q new arbitrary: old rule: update_at.induct)
  case (1 n new)
  then show ?case by simp
next
  case (2 c x xs new)
  then show ?case by simp
next
  case (3 es x xs new)
  from "3.prems"(1) obtain v where v: "map_of es x = Some v" "node_at v xs = Some old"
    by (auto split: option.splits)
  then have "(x, v) \<in> set es" by (simp add: map_of_SomeD)
  from "3.IH"[OF this refl refl v(2) "3.prems"(2)]
  have kv: "keeps v (update_at v xs new)" .
  let ?es' = "map (\<lambda>(k, v). if k = x then (k, update_at v xs new) else (k, v)) es"
  show ?case
    unfolding keeps_def
  proof (intro allI impI)
    fix r es0
    assume a: "node_at (Dir es) r = Some (Dir es0)"
    show "\<exists>es'. node_at (update_at (Dir es) (x # xs) new) r = Some (Dir es') \<and>
            (\<forall>c. map_of es0 c \<noteq> None \<longrightarrow> map_of es' c \<noteq> None)"
    proof (cases r)
      case Nil
      with a have "es0 = es" by simp
      then show ?thesis by (auto simp: Nil map_of_update_key)
    next
      case (Cons y ys)
      with a obtain w where w: "map_of es y = Some w" "node_at w ys = Some (Dir es0)"
        by (auto split: option.splits)
      show ?thesis
      proof (cases "y = x")
        case True
        with w v have "node_at v ys = Some (Dir es0)" by simp
        with kv obtain es' where "node_at (update_at v xs new) ys = Some (Dir es')"
          "\<forall>c. map_of es0 c \<noteq> None \<longrightarrow> map_of es' c \<noteq> None"
          unfolding keeps_def by blast
        then show ?thesis using True v by (simp add: Cons map_of_update_key)
      next
        case False
        then show ?thesis using w by (simp add: Cons map_of_update_key)
      qed
    qed
  qed
qed

lemma resolve_from_keeps:
  "keeps t t' \<Longrightarrow> resolve_from t cur cs = Some d \<Longrightarrow> resolve_from t' cur cs = Some d"
proof (induction cs arbitrary: cur)
  case Nil
  then show ?case by simp
next
  case (Cons c cs)
  from Cons.prems(2) obtain es where es: "node_at t cur = Some (Dir es)"
    by (auto split: option.splits fsnode.splits)
  with Cons.prems(1) obtain es' where es': "node_at t' cur = Some (Dir es')"
    "\<forall>c. map_of es c \<noteq> None \<longrightarrow> map_of es' c \<noteq> None"
    unfolding keeps_def by blast
  show ?case
  proof (cases "c = [] \<or> c = ''.''")
    case True
    with Cons.prems(2) es have "resolve_from t cur cs = Some d" by auto
    from Cons.IH[OF Cons.prems(1) this] True es'(1) show ?thesis by auto
  next
    case False
    show ?thesis
    proof (cases "c = ''..''")
      case True
      with Cons.prems(2) es False have "resolve_from t (butlast cur) cs = Some d" by simp
      from Cons.IH[OF Cons.prems(1) this] True False es'(1) show ?thesis by simp
    next
      case nd: False
      with Cons.prems(2) es False obtain n where n: "map_of es c = Some n"
        "resolve_from t (cur @ [c]) cs = Some d"
        by (auto split: option.splits)
      from n(1) es'(2) obtain n' where n': "map_of es' c = Some n'" by auto
      from Cons.IH[OF Cons.prems(1) n(2)] False nd es'(1) n' show ?thesis by simp
    qed
  qed
qed

lemma resolve_from_append:
  "resolve_from r cur (xs @ ys) =
     (case resolve_from r cur xs of None \<Rightarrow> None | Some d \<Rightarrow> resolve_from r d ys)"
  by (induction xs arbitrary: cur) (auto split: option.splits fsnode.splits)

lemma split_path_nonempty: "split_path p \<noteq> []"
  by (induction p) (auto split: list.splits)

lemma write_file_cases:
  assumes "write_file fs p bytes = Inr fs'"
  obtains d es old where
    "resolve_from (tree fs) (if startswith p ''/'' then [] else cwd fs) (butlast (split_path p)) = Some d"
    "node_at (tree fs) d = Some (Dir es)"
    "last (split_path p) \<noteq> []" "last (split_path p) \<noteq> ''.''" "last (split_path p) \<noteq> ''..''"
    "p \<noteq> []" "cwd fs' = cwd fs"
    "keeps (tree fs) (tree fs')"
    "node_at (tree fs') (d @ [last (split_path p)]) = Some (File bytes)"
proof -
  let ?name = "last (split_path p)"
  let ?start = "if startswith p ''/'' then [] else cwd fs"
  from assms have pn: "p \<noteq> []" by (auto simp: write_file_def)
  from assms pn obtain d where d: "resolve_from (tree fs) ?start (butlast (split_path p)) = Some d"
    by (auto simp: write_file_def Let_def split: option.splits)
  from assms pn d obtain es where es: "node_at (tree fs) d = Some (Dir es)"
    by (auto simp: write_file_def Let_def split: option.splits fsnode.splits)
  from assms pn d es have nm: "?name \<noteq> []" "?name \<noteq> ''.''" "?name \<noteq> ''..''"
    by (auto simp: write_file_def Let_def split: if_splits)
  show thesis
  proof (cases "map_of es ?name")
    case None
    with assms pn d es nm have fs': "fs' = fs\<lparr>tree := update_at (tree fs) d (Dir (es @ [(?name, File bytes)]))\<rparr>"
      by (simp add: write_file_def Let_def)
    have k: "keeps (tree fs) (tree fs')"
      by (simp add: fs' keeps_update[OF es keeps_new_entry[OF None]])
    have "node_at (tree fs') d = Some (Dir (es @ [(?name, File bytes)]))"
      by (simp add: fs' node_at_update_at_same[OF es])
    then have n: "node_at (tree fs') (d @ [?name]) = Some (File bytes)"
      using None by (simp add: node_at_append map_add_def)
    show thesis
      by (rule that[OF d es nm pn _ k n]) (simp add: fs')
  next
    case (Some x)
    with assms pn d es nm obtain c where c: "x = File c"
      and fs': "fs' = fs\<lparr>tree := update_at (tree fs) (d @ [?name]) (File bytes)\<rparr>"
      by (cases x) (auto simp: write_file_def Let_def)
    have old: "node_at (tree fs) (d @ [?name]) = Some (File c)"
      using es Some c by (simp add: node_at_append)
    have k: "keeps (tree fs) (tree fs')"
      by (simp add: fs' keeps_update[OF old keeps_file])
    have n: "node_at (tree fs') (d @ [?name]) = Some (File bytes)"
      by (simp add: fs' node_at_update_at_same[OF old])
    show thesis
      by (rule that[OF d es nm pn _ k n]) (simp add: fs')
  qed
qed

lemma write_then_read:
  assumes "write_file fs p bytes = Inr fs'"
  shows "lookup fs' p = Some (File bytes)"
proof -
  from assms obtain d es where
    d: "resolve_from (tree fs) (if startswith p ''/'' then [] else cwd fs) (butlast (split_path p)) = Some d"
    and es: "node_at (tree fs) d = Some (Dir es)"
    and nm: "last (split_path p) \<noteq> []" "last (split_path p) \<noteq> ''.''" "last (split_path p) \<noteq> ''..''"
    and pn: "p \<noteq> []" and cw: "cwd fs' = cwd fs"
    and k: "keeps (tree fs) (tree fs')"
    and n: "node_at (tree fs') (d @ [last (split_path p)]) = Some (File bytes)"
    by (rule write_file_cases)
  let ?name = "last (split_path p)"
  let ?start = "if startswith p ''/'' then [] else cwd fs"
  have sp: "split_path p = butlast (split_path p) @ [?name]"
    using split_path_nonempty[of p] by simp
  from k es obtain es' where es': "node_at (tree fs') d = Some (Dir es')"
    unfolding keeps_def by blast
  with n obtain x where x: "map_of es' ?name = Some x"
    by (auto simp: node_at_append split: option.splits)
  have d': "resolve_from (tree fs') ?start (butlast (split_path p)) = Some d"
    by (rule resolve_from_keeps[OF k d])
  have "resolve_from (tree fs') ?start (butlast (split_path p) @ [?name]) = Some (d @ [?name])"
    using d' es' x nm by (simp add: resolve_from_append)
  then have "resolve_from (tree fs') ?start (split_path p) = Some (d @ [?name])"
    using sp by simp
  then have "resolve fs' p = Some (d @ [?name])"
    using pn cw by (auto simp: resolve_def split: if_splits)
  then show ?thesis by (simp add: lookup_def n)
qed

lemma write_keeps_dirs:
  assumes "write_file fs p bytes = Inr fs'" and "os_path_isdir fs q"
  shows "os_path_isdir fs' q"
proof -
  from assms(1) obtain cw: "cwd fs' = cwd fs" and k: "keeps (tree fs) (tree fs')"
    by (rule write_file_cases)
  from assms(2) obtain d es where d: "resolve fs q = Some d" and es: "node_at (tree fs) d = Some (Dir es)"
    by (auto simp: os_path_isdir_def lookup_def split: option.splits fsnode.splits)
  from d have qn: "q \<noteq> []" by (auto simp: resolve_def split: if_splits)
  from d qn have "resolve_from (tree fs) (if startswith q ''/'' then [] else cwd fs) (split_path q) = Some d"
    by (simp add: resolve_def)
  from resolve_from_keeps[OF k this] have "resolve fs' q = Some d"
    using qn cw by (auto simp: resolve_def split: if_splits)
  moreover from k es obtain es' where "node_at (tree fs') d = Some (Dir es')"
    unfolding keeps_def by blast
  ultimately show ?thesis by (simp add: os_path_isdir_def lookup_def)
qed

lemma scene_export_writes:
  "scene_export lib s p fs = Inr (bytes, fs') \<Longrightarrow>
     export_glb lib s = Inr bytes \<and> write_file fs p bytes = Inr fs'"
  by (auto simp: scene_export_def split: sum.splits)

lemma final_fs_keeps_model:
  assumes "os_path_isdir fs (input_folder args)" and "os_makedirs fs output_dir = Inr fs1"
  shows "os_path_isdir (final_fs (main lib args fs)) output_dir"
proof (cases "geometry (scene (walked lib fs1 (input_folder args))) = []")
  case True
  from main_no_geometry[OF assms True] makedirs_model_gives_dir[OF assms(2)] show ?thesis by simp
next
  case False
  show ?thesis
  proof (cases "scene_export lib (scene (walked lib fs1 (input_folder args)))
        (os_path_join output_dir (output_name args)) fs1")
    case (Inl e)
    from main_export_raises[OF assms False Inl] makedirs_model_gives_dir[OF assms(2)]
    show ?thesis by simp
  next
    case (Inr x)
    obtain bytes fs2 where x: "x = (bytes, fs2)" by (cases x)
    from Inr x have e: "scene_export lib (scene (walked lib fs1 (input_folder args)))
        (os_path_join output_dir (output_name args)) fs1 = Inr (bytes, fs2)" by simp
    then have "write_file fs1 (os_path_join output_dir (output_name args)) bytes = Inr fs2"
      by (simp add: scene_export_writes)
    from write_keeps_dirs[OF this makedirs_model_gives_dir[OF assms(2)]]
      main_exported[OF assms False e]
    show ?thesis by simp
  qed
qed

subsection \<open>What a run that returns has written\<close>

lemma main_returned_write:
  assumes "os_path_isdir fs (input_folder args)" and "os_makedirs fs output_dir = Inr fs1"
    and "ending (main lib args fs) = Returned"
  shows "\<exists>bytes. export_glb lib (scene (walked lib fs1 (input_folder args))) = Inr bytes \<and>
          write_file fs1 (os_path_join output_dir (output_name args)) bytes =
            Inr (final_fs (main lib args fs)) \<and>
          exported (main lib args fs) = Some (os_path_join output_dir (output_name args), bytes) \<and>
          stdout (main lib args fs) = out (walked lib fs1 (input_folder args)) @
            [Combined (length (geometry (scene (walked lib fs1 (input_folder args)))))
               (input_folder args) (os_path_join output_dir (output_name args))]"
proof -
  let ?st = "walked lib fs1 (input_folder args)"
  let ?glb = "os_path_join output_dir (output_name args)"
  from assms(3) have z: "exit_status (ending (main lib args fs)) = 0" by simp
  then have g: "geometry (scene ?st) \<noteq> []"
    using assms(1,2) by (auto simp: exit_status_main split: if_splits)
  from z obtain bytes fs2 where e: "scene_export lib (scene ?st) ?glb fs1 = Inr (bytes, fs2)"
    using assms(1,2) g by (auto simp: exit_status_main split: sum.splits)
  from scene_export_writes[OF e] main_exported[OF assms(1,2) g e] show ?thesis by simp
qed

lemma output_path_in_model:
  "\<not> startswith name ''/'' \<Longrightarrow> os_path_join output_dir name = ''model/'' @ name"
  by (simp add: os_path_join_def output_dir_def endswith_def)

lemma default_output_path:
  "os_path_join output_dir (output_name default_args) = ''model/model.glb''"
  by (simp add: output_path_in_model default_args_def startswith_def)

lemma output_written_under_model:
  assumes "os_path_isdir fs (input_folder args)" and "os_makedirs fs output_dir = Inr fs1"
    and "ending (main lib args fs) = Returned" and "\<not> startswith (output_name args) ''/''"
  shows "\<exists>bytes. exported (main lib args fs) = Some (''model/'' @ output_name args, bytes) \<and>
           lookup (final_fs (main lib args fs)) (''model/'' @ output_name args) = Some (File bytes)"
proof -
  from main_returned_write[OF assms(1-3)] obtain bytes where
    "write_file fs1 (os_path_join output_dir (output_name args)) bytes =
       Inr (final_fs (main lib args fs))"
    "exported (main lib args fs) = Some (os_path_join output_dir (output_name args), bytes)"
    by blast
  with write_then_read[of fs1 "os_path_join output_dir (output_name args)" bytes]
  show ?thesis by (simp add: output_path_in_model[OF assms(4)])
qed

section \<open>The claims\<close>

subsection \<open>C1: one node for each file\<close>

text \<open>
  Claim C1. For a folder with N valid OBJ files and no invalid one, the scene of a
  successful run has exactly N named nodes, each named by the base name of its file
  without the extension.

  As stated the claim fails: both files of \<open>twins_fs\<close> load, both are called
  \<^verbatim>\<open>x.obj\<close>, so line 43 gives both the node name \<^verbatim>\<open>x\<close>, and the scene of the
  successful run has the one node \<^verbatim>\<open>x\<close> for two files.
\<close>

theorem twins_share_one_node_counterexample:
  "os_path_isdir twins_fs ''obj/'' \<and> os_makedirs twins_fs output_dir = Inr twins_fs \<and>
   selected (os_walk twins_fs ''obj/'') =
     [(''obj/a/x.obj'', ''first''), (''obj/b/x.obj'', ''second'')] \<and>
   list_all (loads_mesh demo_lib) (selected (os_walk twins_fs ''obj/'')) \<and>
   ending (main demo_lib default_args twins_fs) = Returned \<and>
   map fst (graph (scene (walked demo_lib twins_fs ''obj/''))) = [''x''] \<and>
   length (graph (scene (walked demo_lib twins_fs ''obj/''))) \<noteq>
     length (selected (os_walk twins_fs ''obj/''))"
  by code_simp

text \<open>
  Claim C1, amended. If every \<^verbatim>\<open>.obj\<close> file of the walk loads as a mesh and no two of
  them get the same node name, then after a successful run the scene that was
  exported has one node and one geometry entry for each file: the node names are the
  node names of the files in the order of the walk, the \<open>i\<close>-th node places the \<open>i\<close>-th
  geometry entry, and the geometry entries are the transformed meshes of the files.
  The node name of a file \<^verbatim>\<open>stem.obj\<close> in any directory is \<^verbatim>\<open>stem\<close>, when \<^verbatim>\<open>stem\<close> has
  no slash and is not made of dots only.
\<close>

theorem one_node_per_file:
  assumes "os_path_isdir fs (input_folder args)" and "os_makedirs fs output_dir = Inr fs1"
    and "\<forall>f \<in> set (selected (os_walk fs1 (input_folder args))). loads_mesh lib f"
    and "distinct (map (\<lambda>f. node_name_of (fst f)) (selected (os_walk fs1 (input_folder args))))"
    and "ending (main lib args fs) = Returned"
  shows
   "(\<exists>bytes. exported (main lib args fs) =
        Some (os_path_join output_dir (output_name args), bytes) \<and>
      export_glb lib (scene (walked lib fs1 (input_folder args))) = Inr bytes) \<and>
    map fst (graph (scene (walked lib fs1 (input_folder args)))) =
      map (\<lambda>f. node_name_of (fst f)) (selected (os_walk fs1 (input_folder args))) \<and>
    length (graph (scene (walked lib fs1 (input_folder args)))) =
      length (selected (os_walk fs1 (input_folder args))) \<and>
    map snd (graph (scene (walked lib fs1 (input_folder args)))) =
      [0 ..< length (selected (os_walk fs1 (input_folder args)))] \<and>
    geometry (scene (walked lib fs1 (input_folder args))) =
      List.map_filter (mesh_of lib) (selected (os_walk fs1 (input_folder args))) \<and>
    length (geometry (scene (walked lib fs1 (input_folder args)))) =
      length (selected (os_walk fs1 (input_folder args))) \<and>
    (\<forall>dirpath stem. CHR ''/'' \<notin> set stem \<and> (\<exists>ch \<in> set stem. ch \<noteq> CHR ''.'') \<longrightarrow>
       node_name_of (os_path_join dirpath (stem @ ''.obj'')) = stem)"
proof -
  let ?files = "selected (os_walk fs1 (input_folder args))"
  let ?s = "scene (walked lib fs1 (input_folder args))"
  have all: "filter (loads_mesh lib) ?files = ?files"
    using assms(3) by (simp add: filter_id_conv)
  have mr: "\<forall>f \<in> set ?files. loads_mesh lib f \<or> load_raises lib f"
    using assms(3) by blast
  have d: "distinct (map (\<lambda>f. node_name_of (fst f)) (filter (loads_mesh lib) ?files))"
    using assms(4) by (simp add: all)
  have geo: "geometry ?s = List.map_filter (mesh_of lib) ?files"
    using scene_from_initial(1)[OF mr d] by (simp add: walked_process)
  have gr: "graph ?s = zip (map (\<lambda>f. node_name_of (fst f)) ?files) [0 ..< length ?files]"
    using scene_from_initial(2)[OF mr d] by (simp add: walked_process all)
  have lg: "length (geometry ?s) = length ?files"
    using all by (simp add: geo length_map_filter loads_mesh_def[abs_def])
  have nm: "\<forall>dirpath stem. CHR ''/'' \<notin> set stem \<and> (\<exists>ch \<in> set stem. ch \<noteq> CHR ''.'') \<longrightarrow>
       node_name_of (os_path_join dirpath (stem @ ''.obj'')) = stem"
    by (simp add: node_name_of_obj)
  have 2: "map fst (graph ?s) = map (\<lambda>f. node_name_of (fst f)) ?files"
    by (simp add: gr)
  have 3: "length (graph ?s) = length ?files" by (simp add: gr)
  have 4: "map snd (graph ?s) = [0 ..< length ?files]" by (simp add: gr)
  from main_returned[OF assms(1,2,5)] 2 3 4 geo lg nm show ?thesis by (intro conjI)
qed

theorem one_node_per_file_witness:
  "ending (main demo_lib default_args plain_fs) = Returned \<and>
   exported (main demo_lib default_args plain_fs) = Some (''model/model.glb'', ''glTFR(A)R(B)'') \<and>
   map fst (graph (scene (walked demo_lib (fs_with [(''obj'', Dir obj_tree), (''model'', Dir [])])
     (input_folder default_args)))) = [''a'', ''b''] \<and>
   geometry (scene (walked demo_lib (fs_with [(''obj'', Dir obj_tree), (''model'', Dir [])])
     (input_folder default_args))) = [''R(A)'', ''R(B)'']"
proof -
  let ?fs1 = "fs_with [(''obj'', Dir obj_tree), (''model'', Dir [])]"
  have d: "os_path_isdir plain_fs (input_folder default_args)" by code_simp
  have m: "os_makedirs plain_fs output_dir = Inr ?fs1" by code_simp
  have sel: "selected (os_walk ?fs1 (input_folder default_args)) =
      [(''obj/a.obj'', ''A''), (''obj/sub/b.obj'', ''B'')]" by code_simp
  have a: "\<forall>f \<in> set (selected (os_walk ?fs1 (input_folder default_args))). loads_mesh demo_lib f"
    unfolding sel by (simp add: loads_mesh_iff demo_lib_def)
  have n: "map (\<lambda>f. node_name_of (fst f)) (selected (os_walk ?fs1 (input_folder default_args))) =
      [''a'', ''b'']" by code_simp
  have di: "distinct (map (\<lambda>f. node_name_of (fst f)) (selected (os_walk ?fs1 (input_folder default_args))))"
    unfolding n by simp
  have r: "ending (main demo_lib default_args plain_fs) = Returned" by code_simp
  have e: "exported (main demo_lib default_args plain_fs) = Some (''model/model.glb'', ''glTFR(A)R(B)'')"
    by code_simp
  have mf: "List.map_filter (mesh_of demo_lib) (selected (os_walk ?fs1 (input_folder default_args))) =
      [''R(A)'', ''R(B)'']" by code_simp
  from one_node_per_file[OF d m a di r] r e
  show ?thesis unfolding n mf by simp
qed

subsection \<open>C2: the names of the scene entries\<close>

text \<open>
  Claim C2. At every point of the run every entry of the scene has a name that is
  unique among the entries and is the base name of its source file, and no file whose
  load raised is in the scene; for every input tree, also when files in different
  subdirectories share a base name.

  As stated the claim fails, on such a tree: the two files of \<open>twins_fs\<close> get the same
  node name, so after the walk the scene has two geometry entries and the single node
  \<^verbatim>\<open>x\<close>, which places the second; the entry of the first file has no node of its own.
\<close>

theorem twins_break_unique_names_counterexample:
  "walked demo_lib twins_fs ''obj/'' =
     process_all demo_lib [(''obj/a/x.obj'', ''first''), (''obj/b/x.obj'', ''second'')] initial_state \<and>
   node_name_of ''obj/a/x.obj'' = node_name_of ''obj/b/x.obj'' \<and>
   geometry (scene (walked demo_lib twins_fs ''obj/'')) = [''R(first)'', ''R(second)''] \<and>
   graph (scene (walked demo_lib twins_fs ''obj/'')) = [(''x'', 1)] \<and>
   \<not> well_named (scene (walked demo_lib twins_fs ''obj/''))"
  by code_simp

text \<open>
  Claim C2, amended. If every \<^verbatim>\<open>.obj\<close> file of the walk loads as a mesh or raises, and
  no two of those that load get the same node name, then after any number \<open>k\<close> of
  files the scene is well named (every geometry entry is placed by exactly one node,
  and no two nodes have the same name), its node names are the node names of the
  files that loaded so far, in order, its geometry entries are their transformed
  meshes, and the node of the \<open>i\<close>-th such file places the \<open>i\<close>-th entry. The state after the walk is the one after all files. For every library and
  every state, a file whose load raises leaves the scene as it was.
\<close>

theorem scene_entries_named_by_source:
  "((\<forall>f \<in> set (selected (os_walk fs obj_dir)). loads_mesh lib f \<or> load_raises lib f) \<and>
    distinct (map (\<lambda>f. node_name_of (fst f))
      (filter (loads_mesh lib) (selected (os_walk fs obj_dir)))) \<longrightarrow>
    (\<forall>k. well_named (scene (process_all lib (take k (selected (os_walk fs obj_dir))) initial_state)) \<and>
       map fst (graph (scene (process_all lib (take k (selected (os_walk fs obj_dir))) initial_state))) =
         map (\<lambda>f. node_name_of (fst f))
           (filter (loads_mesh lib) (take k (selected (os_walk fs obj_dir)))) \<and>
       geometry (scene (process_all lib (take k (selected (os_walk fs obj_dir))) initial_state)) =
         List.map_filter (mesh_of lib) (take k (selected (os_walk fs obj_dir))) \<and>
       map snd (graph (scene (process_all lib (take k (selected (os_walk fs obj_dir))) initial_state))) =
         [0 ..< length (geometry
            (scene (process_all lib (take k (selected (os_walk fs obj_dir))) initial_state)))])) \<and>
   walked lib fs obj_dir = process_all lib (selected (os_walk fs obj_dir)) initial_state \<and>
   (\<forall>p c e st. load lib p c = Inl e \<longrightarrow> scene (process_obj lib p c st) = scene st)"
proof (intro conjI impI allI)
  let ?files = "selected (os_walk fs obj_dir)"
  show "walked lib fs obj_dir = process_all lib ?files initial_state"
    by (rule walked_process)
  show "\<And>p c e st. load lib p c = Inl e \<Longrightarrow> scene (process_obj lib p c st) = scene st"
    by (rule scene_process_obj_raise)
  fix k
  assume a: "(\<forall>f \<in> set ?files. loads_mesh lib f \<or> load_raises lib f) \<and>
    distinct (map (\<lambda>f. node_name_of (fst f)) (filter (loads_mesh lib) ?files))"
  let ?pre = "take k ?files"
  let ?s = "scene (process_all lib ?pre initial_state)"
  have mr: "\<forall>f \<in> set ?pre. loads_mesh lib f \<or> load_raises lib f"
    using a by (meson in_set_takeD)
  have "distinct (map (\<lambda>f. node_name_of (fst f))
           (filter (loads_mesh lib) ?pre @ filter (loads_mesh lib) (drop k ?files)))"
    using a filter_take_prefix[of "loads_mesh lib" ?files k] by simp
  then have d: "distinct (map (\<lambda>f. node_name_of (fst f)) (filter (loads_mesh lib) ?pre))"
    by simp
  have geo: "geometry ?s = List.map_filter (mesh_of lib) ?pre"
    by (rule scene_from_initial(1)[OF mr d])
  have gr: "graph ?s = zip (map (\<lambda>f. node_name_of (fst f)) (filter (loads_mesh lib) ?pre))
             [0 ..< length (filter (loads_mesh lib) ?pre)]"
    by (rule scene_from_initial(2)[OF mr d])
  have lg: "length (geometry ?s) = length (filter (loads_mesh lib) ?pre)"
    by (simp add: geo length_map_filter loads_mesh_def[abs_def])
  show "well_named ?s"
    using d lg by (simp add: well_named_def gr)
  show "map fst (graph ?s) = map (\<lambda>f. node_name_of (fst f)) (filter (loads_mesh lib) ?pre)"
    by (simp add: gr)
  show "geometry ?s = List.map_filter (mesh_of lib) ?pre"
    by (rule geo)
  show "map snd (graph ?s) = [0 ..< length (geometry ?s)]"
    by (simp add: gr lg)
qed

theorem scene_entries_named_by_source_witness:
  "well_named (scene (process_all demo_lib (take 2 (selected (os_walk mixed_fs ''obj/''))) initial_state)) \<and>
   map fst (graph (scene (process_all demo_lib (take 2 (selected (os_walk mixed_fs ''obj/''))) initial_state))) =
     [''good''] \<and>
   geometry (scene (process_all demo_lib (take 2 (selected (os_walk mixed_fs ''obj/''))) initial_state)) =
     [''R(G)'']"
proof -
  have sel: "selected (os_walk mixed_fs ''obj/'') =
      [(''obj/bad.obj'', ''corrupt''), (''obj/good.obj'', ''G''), (''obj/late.obj'', ''L'')]"
    by code_simp
  have h: "(\<forall>f \<in> set (selected (os_walk mixed_fs ''obj/'')). loads_mesh demo_lib f \<or> load_raises demo_lib f) \<and>
    distinct (map (\<lambda>f. node_name_of (fst f))
      (filter (loads_mesh demo_lib) (selected (os_walk mixed_fs ''obj/''))))"
    unfolding sel by code_simp
  have n: "map (\<lambda>f. node_name_of (fst f))
      (filter (loads_mesh demo_lib) (take 2 (selected (os_walk mixed_fs ''obj/'')))) = [''good'']"
    by code_simp
  have g: "List.map_filter (mesh_of demo_lib) (take 2 (selected (os_walk mixed_fs ''obj/''))) = [''R(G)'']"
    by code_simp
  from scene_entries_named_by_source[of mixed_fs "''obj/''" demo_lib] h
  have "well_named (scene (process_all demo_lib (take 2 (selected (os_walk mixed_fs ''obj/''))) initial_state)) \<and>
       map fst (graph (scene (process_all demo_lib (take 2 (selected (os_walk mixed_fs ''obj/''))) initial_state))) =
         map (\<lambda>f. node_name_of (fst f))
           (filter (loads_mesh demo_lib) (take 2 (selected (os_walk mixed_fs ''obj/'')))) \<and>
       geometry (scene (process_all demo_lib (take 2 (selected (os_walk mixed_fs ''obj/''))) initial_state)) =
         List.map_filter (mesh_of demo_lib) (take 2 (selected (os_walk mixed_fs ''obj/'')))"
    by blast
  then show ?thesis unfolding n g .
qed

subsection \<open>C3: exit codes\<close>



subsection \<open>C4: a file whose load raises\<close>

text \<open>
  Claim C4. When the load of an \<^verbatim>\<open>.obj\<close> file raises, the error is caught and printed
  with the path and the message, the file is skipped, the remaining files are still
  processed, and the run ends with status 0 if the scene has a geometry entry and the
  export succeeds.

  Let the files of the walk be \<open>pre\<close>, then \<open>(p, c)\<close>, then \<open>post\<close>, and let the load of
  \<open>(p, c)\<close> raise \<open>e\<close>. The state after the walk is the state after \<open>pre\<close>, with the
  counter one higher and the two lines \<open>Loading p ..\<close> and \<open>Error_loading p e\<close>
  printed, and then \<open>post\<close> processed from there; the scene is the scene that \<open>pre\<close>
  and \<open>post\<close> alone give; the error line is in the output; every file of \<open>post\<close> has
  its \<open>Loading\<close> line in the output; and if the scene is not empty and the export
  succeeds, the exit status is 0.
\<close>

theorem load_error_is_skipped:
  assumes sel: "selected (os_walk fs1 (input_folder args)) = pre @ (p, c) # post"
    and raises: "load lib p c = Inl e"
  shows "walked lib fs1 (input_folder args) =
           process_all lib post
             ((process_all lib pre initial_state)
                \<lparr>obj_files_found := obj_files_found (process_all lib pre initial_state) + 1,
                 out := out (process_all lib pre initial_state) @
                   [Loading p (node_name_of p), Error_loading p e]\<rparr>) \<and>
         scene (walked lib fs1 (input_folder args)) =
           scene (process_all lib (pre @ post) initial_state) \<and>
         Error_loading p e \<in> set (out (walked lib fs1 (input_folder args))) \<and>
         (\<forall>f \<in> set post.
            Loading (fst f) (node_name_of (fst f)) \<in> set (out (walked lib fs1 (input_folder args)))) \<and>
         (os_path_isdir fs (input_folder args) \<and> os_makedirs fs output_dir = Inr fs1 \<and>
          geometry (scene (walked lib fs1 (input_folder args))) \<noteq> [] \<and>
          scene_export lib (scene (walked lib fs1 (input_folder args)))
            (os_path_join output_dir (output_name args)) fs1 = Inr (bytes, fs2)
          \<longrightarrow> exit_status (ending (main lib args fs)) = 0)"
proof -
  let ?d = "input_folder args"
  let ?mid = "(process_all lib pre initial_state)
                \<lparr>obj_files_found := obj_files_found (process_all lib pre initial_state) + 1,
                 out := out (process_all lib pre initial_state) @
                   [Loading p (node_name_of p), Error_loading p e]\<rparr>"
  have step: "process_obj lib p c (process_all lib pre initial_state) = ?mid"
    by (rule process_obj_raise[OF raises])
  have 1: "walked lib fs1 ?d = process_all lib post ?mid"
    by (simp add: walked_process sel process_all_append process_all_Cons step)
  have "scene ?mid = scene (process_all lib pre initial_state)" by simp
  then have "scene (process_all lib post ?mid) =
      scene (process_all lib post (process_all lib pre initial_state))"
    by (rule scene_process_all_cong)
  then have 2: "scene (walked lib fs1 ?d) = scene (process_all lib (pre @ post) initial_state)"
    by (simp add: 1 process_all_append)
  have "Error_loading p e \<in> set (out ?mid)" by simp
  then have 3: "Error_loading p e \<in> set (out (walked lib fs1 ?d))"
    unfolding 1 by (rule out_kept)
  have 4: "\<forall>f \<in> set post. Loading (fst f) (node_name_of (fst f)) \<in> set (out (walked lib fs1 ?d))"
  proof
    fix f assume "f \<in> set post"
    then have "(fst f, snd f) \<in> set post" by simp
    then show "Loading (fst f) (node_name_of (fst f)) \<in> set (out (walked lib fs1 ?d))"
      unfolding 1 by (rule loading_logged)
  qed
  have 5: "os_path_isdir fs ?d \<and> os_makedirs fs output_dir = Inr fs1 \<and>
          geometry (scene (walked lib fs1 ?d)) \<noteq> [] \<and>
          scene_export lib (scene (walked lib fs1 ?d))
            (os_path_join output_dir (output_name args)) fs1 = Inr (bytes, fs2)
          \<longrightarrow> exit_status (ending (main lib args fs)) = 0"
    by (auto simp: main_exported)
  from 1 2 3 4 5 show ?thesis by (intro conjI)
qed

theorem load_error_is_skipped_witness:
  "selected (os_walk mixed_fs ''obj/'') =
     [] @ (''obj/bad.obj'', ''corrupt'') # [(''obj/good.obj'', ''G''), (''obj/late.obj'', ''L'')] \<and>
   load demo_lib ''obj/bad.obj'' ''corrupt'' = Inl ''parse error'' \<and>
   Error_loading ''obj/bad.obj'' ''parse error'' \<in> set (out (walked demo_lib mixed_fs ''obj/'')) \<and>
   Loading ''obj/late.obj'' ''late'' \<in> set (out (walked demo_lib mixed_fs ''obj/'')) \<and>
   scene (walked demo_lib mixed_fs ''obj/'') =
     scene (process_all demo_lib [(''obj/good.obj'', ''G''), (''obj/late.obj'', ''L'')] initial_state) \<and>
   exit_status (ending (main demo_lib default_args mixed_fs)) = 0"
proof -
  have d: "input_folder default_args = ''obj/''" by (simp add: default_args_def)
  have sel: "selected (os_walk mixed_fs (input_folder default_args)) =
     [] @ (''obj/bad.obj'', ''corrupt'') # [(''obj/good.obj'', ''G''), (''obj/late.obj'', ''L'')]"
    by code_simp
  have raises: "load demo_lib ''obj/bad.obj'' ''corrupt'' = Inl ''parse error''"
    by code_simp
  have run: "os_path_isdir mixed_fs (input_folder default_args) \<and>
      os_makedirs mixed_fs output_dir = Inr mixed_fs \<and>
      geometry (scene (walked demo_lib mixed_fs (input_folder default_args))) \<noteq> [] \<and>
      scene_export demo_lib (scene (walked demo_lib mixed_fs (input_folder default_args)))
        (os_path_join output_dir (output_name default_args)) mixed_fs =
      Inr (''glTFR(G)R(L)'',
           fs_with [(''obj'', Dir mixed_tree), (''model'', Dir [(''model.glb'', File ''glTFR(G)R(L)'')])])"
    by code_simp
  have nm: "node_name_of ''obj/late.obj'' = ''late''" by code_simp
  from load_error_is_skipped[OF sel raises, of mixed_fs _ _] run sel raises nm
  show ?thesis
    unfolding d by fastforce
qed

subsection \<open>C5: the rotation\<close>




subsection \<open>C6: which files the walk selects\<close>

text \<open>
  Claim C6. The walk covers the whole input tree, and a file is handled if and only if
  its name ends with \<^verbatim>\<open>.obj\<close>, compared case-sensitively; the order is the order of
  the directory listings.

  When the input path names a directory with entries \<open>es\<close>, the loop of \<^verbatim>\<open>main\<close> runs
  lines 40 to 63 over exactly the list \<open>selected (walk_dir obj_dir es)\<close>; a path with
  its bytes is in that list if and only if it is \<^verbatim>\<open>os.path.join(p, n)\<close> for a file \<open>n\<close>
  that some directory \<open>p\<close> of the tree holds, at any depth, and \<open>n\<close> ends with
  \<^verbatim>\<open>.obj\<close>; the list has the files of a directory in listing order first and then
  those of its subdirectories, one subdirectory after the other in listing order;
  \<^verbatim>\<open>FILE.OBJ\<close> does not end with \<^verbatim>\<open>.obj\<close>.
\<close>

theorem walk_selects_obj_files:
  assumes "lookup fs obj_dir = Some (Dir es)"
  shows "walked lib fs obj_dir = process_all lib (selected (walk_dir obj_dir es)) initial_state \<and>
    (\<forall>q c. (q, c) \<in> set (selected (walk_dir obj_dir es)) \<longleftrightarrow>
       (\<exists>p n. file_below obj_dir es p n c \<and> endswith n ''.obj'' \<and> q = os_path_join p n)) \<and>
    (\<forall>d sub. selected (walk_dir d sub) =
       map (\<lambda>(n, c). (os_path_join d n, c)) (filter (\<lambda>(n, c). endswith n ''.obj'') (filenames sub)) @
       concat (map (\<lambda>(n, below). selected (walk_dir (os_path_join d n) below)) (subdirs sub))) \<and>
    \<not> endswith ''FILE.OBJ'' ''.obj''"
proof -
  have 1: "walked lib fs obj_dir = process_all lib (selected (walk_dir obj_dir es)) initial_state"
    by (simp add: walked_process os_walk_dir[OF assms])
  have 4: "\<not> endswith ''FILE.OBJ'' ''.obj''"
    by (simp add: endswith_def)
  have 2: "\<forall>q c. (q, c) \<in> set (selected (walk_dir obj_dir es)) \<longleftrightarrow>
       (\<exists>p n. file_below obj_dir es p n c \<and> endswith n ''.obj'' \<and> q = os_path_join p n)"
    by (intro allI) (rule selected_iff)
  have 3: "\<forall>d sub. selected (walk_dir d sub) =
       map (\<lambda>(n, c). (os_path_join d n, c)) (filter (\<lambda>(n, c). endswith n ''.obj'') (filenames sub)) @
       concat (map (\<lambda>(n, below). selected (walk_dir (os_path_join d n) below)) (subdirs sub))"
    by (intro allI) (rule selected_walk_dir)
  from 1 2 3 4 show ?thesis by (intro conjI)
qed

theorem walk_selects_obj_files_witness:
  "lookup plain_fs ''obj/'' = Some (Dir obj_tree) \<and>
   walked demo_lib plain_fs ''obj/'' =
     process_all demo_lib [(''obj/a.obj'', ''A''), (''obj/sub/b.obj'', ''B'')] initial_state \<and>
   (''obj/sub/b.obj'', ''B'') \<in> set (selected (walk_dir ''obj/'' obj_tree)) \<and>
   (''obj/sub/FILE.OBJ'', ''C'') \<notin> set (selected (walk_dir ''obj/'' obj_tree))"
proof -
  have h: "lookup plain_fs ''obj/'' = Some (Dir obj_tree)"
    by code_simp
  have s: "selected (walk_dir ''obj/'' obj_tree) = [(''obj/a.obj'', ''A''), (''obj/sub/b.obj'', ''B'')]"
    by code_simp
  from walk_selects_obj_files[OF h, of demo_lib]
  have w: "walked demo_lib plain_fs ''obj/'' =
      process_all demo_lib (selected (walk_dir ''obj/'' obj_tree)) initial_state"
    by (rule conjunct1)
  have m: "(''obj/sub/b.obj'', ''B'') \<in> set (selected (walk_dir ''obj/'' obj_tree))"
    "(''obj/sub/FILE.OBJ'', ''C'') \<notin> set (selected (walk_dir ''obj/'' obj_tree))"
    unfolding s by simp_all
  from h w m show ?thesis unfolding s by (intro conjI)
qed

subsection \<open>C7: where the GLB file is written\<close>

text \<open>
  Claim C7. Every successful run writes the GLB file to \<^verbatim>\<open>model/<output-name>\<close>, where
  the output name is the value of \<^verbatim>\<open>--output-name\<close> / \<^verbatim>\<open>-o\<close> and defaults to
  \<^verbatim>\<open>model.glb\<close>; \<^verbatim>\<open>model\<close> is created if it is absent; the input folder is the positional
  argument and defaults to \<^verbatim>\<open>obj/\<close>.

  For an output name that does not start with a slash the path of line 30 is
  \<^verbatim>\<open>model/<output-name>\<close> and a successful run leaves the exported bytes there
  (\<open>output_written_under_model\<close>); the default path is \<^verbatim>\<open>model/model.glb\<close>. (Such a path
  is still resolved as paths are: a name with \<^verbatim>\<open>..\<close> in it leads out of \<^verbatim>\<open>model\<close>.) For an output
  name that is an absolute path, \<^verbatim>\<open>os.path.join\<close> drops \<^verbatim>\<open>model\<close>: the run below stays a
  successful one, writes \<^verbatim>\<open>/tmp/out.glb\<close>, and leaves the folder \<^verbatim>\<open>model\<close> it created
  empty, although the description the program gives of itself (line 9) says that the
  output is saved in the \<^verbatim>\<open>model\<close> folder.
\<close>

theorem absolute_output_name_leaves_model:
  "input_folder outside_args = input_folder default_args \<and>
   output_name outside_args = ''/tmp/out.glb'' \<and>
   os_path_join output_dir (output_name outside_args) = ''/tmp/out.glb'' \<and>
   ending (main demo_lib outside_args plain_fs) = Returned \<and>
   exported (main demo_lib outside_args plain_fs) = Some (''/tmp/out.glb'', ''glTFR(A)R(B)'') \<and>
   lookup (final_fs (main demo_lib outside_args plain_fs)) ''/tmp/out.glb'' =
     Some (File ''glTFR(A)R(B)'') \<and>
   lookup (final_fs (main demo_lib outside_args plain_fs)) ''model'' = Some (Dir [])"
  by code_simp

subsection \<open>C8: the same input gives the same output\<close>



subsection \<open>C9: when the output folder is created\<close>

text \<open>
  Claim C9. The folder \<^verbatim>\<open>model\<close> is created if and only if the input path exists and is
  a directory: otherwise the run exits 1 before it writes anything, and for an
  existing input directory \<^verbatim>\<open>model\<close> is created before the walk and so exists even
  when the run exits 1 later.

  As stated the claim fails when the name \<^verbatim>\<open>model\<close> belongs to a regular file: the
  input directory exists, \<^verbatim>\<open>os.makedirs\<close> raises \<^verbatim>\<open>FileExistsError\<close>, nothing catches it,
  and the run ends with status 1 and without a directory \<^verbatim>\<open>model\<close>.
\<close>

theorem model_is_a_file_counterexample:
  "os_path_isdir blocked_fs ''obj/'' \<and>
   exit_status (ending (main demo_lib default_args blocked_fs)) = 1 \<and>
   ending (main demo_lib default_args blocked_fs) = Uncaught ''FileExistsError'' \<and>
   final_fs (main demo_lib default_args blocked_fs) = blocked_fs \<and>
   \<not> os_path_isdir (final_fs (main demo_lib default_args blocked_fs)) ''model''"
  by code_simp

text \<open>
  Claim C9, amended. If the input path is not a directory (it may not exist), the run
  exits 1 and leaves the filesystem as it was. If it is a directory, \<^verbatim>\<open>os.makedirs\<close> is
  called before the walk: when it succeeds, \<^verbatim>\<open>model\<close> is a directory in the filesystem
  the walk reads and in the filesystem the run leaves, however the run ends, and a
  run that exits 1 leaves exactly the filesystem \<^verbatim>\<open>os.makedirs\<close> returned; when it
  raises, the run ends with that exception and leaves the filesystem as it was. In a
  working directory that exists, \<^verbatim>\<open>os.makedirs\<close> raises exactly when the name \<^verbatim>\<open>model\<close>
  belongs to a regular file.
\<close>

theorem model_dir_creation:
  "(\<not> os_path_isdir fs (input_folder args) \<longrightarrow>
      exit_status (ending (main lib args fs)) = 1 \<and> final_fs (main lib args fs) = fs) \<and>
   (os_path_isdir fs (input_folder args) \<longrightarrow>
      (\<forall>fs1. os_makedirs fs output_dir = Inr fs1 \<longrightarrow>
         os_path_isdir fs1 output_dir \<and>
         os_path_isdir (final_fs (main lib args fs)) output_dir \<and>
         (exit_status (ending (main lib args fs)) = 1 \<longrightarrow> final_fs (main lib args fs) = fs1)) \<and>
      (\<forall>e. os_makedirs fs output_dir = Inl e \<longrightarrow>
         ending (main lib args fs) = Uncaught e \<and> final_fs (main lib args fs) = fs)) \<and>
   (\<forall>es. node_at (tree fs) (cwd fs) = Some (Dir es) \<longrightarrow>
      ((\<exists>e. os_makedirs fs output_dir = Inl e) \<longleftrightarrow> (\<exists>c. map_of es output_dir = Some (File c))))"
proof (intro conjI impI allI)
  assume n: "\<not> os_path_isdir fs (input_folder args)"
  show "exit_status (ending (main lib args fs)) = 1"
    using n by (simp add: exit_status_main)
  show "final_fs (main lib args fs) = fs"
    using n by (cases "os_path_exists fs (input_folder args)") (simp_all add: main_missing main_not_dir)
next
  fix fs1
  assume d: "os_path_isdir fs (input_folder args)" and m: "os_makedirs fs output_dir = Inr fs1"
  show "os_path_isdir fs1 output_dir" by (rule makedirs_model_gives_dir[OF m])
  show "os_path_isdir (final_fs (main lib args fs)) output_dir"
    by (rule final_fs_keeps_model[OF d m])
  assume x: "exit_status (ending (main lib args fs)) = 1"
  show "final_fs (main lib args fs) = fs1"
  proof (cases "geometry (scene (walked lib fs1 (input_folder args))) = []")
    case True
    from main_no_geometry[OF d m True] show ?thesis by simp
  next
    case False
    with x d m obtain e where "scene_export lib (scene (walked lib fs1 (input_folder args)))
        (os_path_join output_dir (output_name args)) fs1 = Inl e"
      by (auto simp: exit_status_main split: sum.splits)
    from main_export_raises[OF d m False this] show ?thesis by simp
  qed
next
  fix e
  assume d: "os_path_isdir fs (input_folder args)" and m: "os_makedirs fs output_dir = Inl e"
  show "ending (main lib args fs) = Uncaught e"
    by (simp add: main_makedirs_raises[OF d m])
  show "final_fs (main lib args fs) = fs"
    by (simp add: main_makedirs_raises[OF d m])
next
  fix es
  assume "node_at (tree fs) (cwd fs) = Some (Dir es)"
  then show "(\<exists>e. os_makedirs fs output_dir = Inl e) \<longleftrightarrow> (\<exists>c. map_of es output_dir = Some (File c))"
    by (rule makedirs_raises_iff)
qed

theorem model_dir_creation_witness:
  "exit_status (ending (main demo_lib default_args file_fs)) = 1 \<and>
   final_fs (main demo_lib default_args file_fs) = file_fs \<and>
   os_path_isdir (fs_with [(''obj'', Dir [(''readme.txt'', File ''r'')]), (''model'', Dir [])]) output_dir \<and>
   final_fs (main demo_lib default_args bare_fs) =
     fs_with [(''obj'', Dir [(''readme.txt'', File ''r'')]), (''model'', Dir [])] \<and>
   ending (main demo_lib default_args blocked_fs) = Uncaught ''FileExistsError''"
proof -
  let ?bare1 = "fs_with [(''obj'', Dir [(''readme.txt'', File ''r'')]), (''model'', Dir [])]"
  have f: "\<not> os_path_isdir file_fs (input_folder default_args)" by code_simp
  have b: "os_path_isdir bare_fs (input_folder default_args)"
    "os_makedirs bare_fs output_dir = Inr ?bare1"
    "exit_status (ending (main demo_lib default_args bare_fs)) = 1"
    by code_simp+
  have k: "os_path_isdir blocked_fs (input_folder default_args)"
    "os_makedirs blocked_fs output_dir = Inl ''FileExistsError''"
    by code_simp+
  note t = model_dir_creation[of _ default_args demo_lib]
  from t[of file_fs] f have 1: "exit_status (ending (main demo_lib default_args file_fs)) = 1 \<and>
      final_fs (main demo_lib default_args file_fs) = file_fs" by blast
  from t[of bare_fs] b have 2: "os_path_isdir ?bare1 output_dir \<and>
      final_fs (main demo_lib default_args bare_fs) = ?bare1" by blast
  from t[of blocked_fs] k have 3: "ending (main demo_lib default_args blocked_fs) = Uncaught ''FileExistsError''"
    by blast
  from 1 2 3 show ?thesis by simp
qed

subsection \<open>C10: the geometry entries decide\<close>




end
